theory Spec2Isabelle
  imports
    Main
    "HOL-Library.Multiset"
    "HOL-Library.Char_ord"
    "HOL-Library.List_Lexorder"
begin

section \<open>PostgreSQL schema migrations as Pulumi resources: a model of \<open>index.ts\<close>\<close>

text \<open>
  The theory embeds the migration provider of \<open>index.ts\<close>: the discovery of migration
  files (\<open>FileMigrationManager.loadMigrationFiles\<close>), the construction of the resource
  chain (\<open>createMigrationResources\<close>) and the provider operations \<open>create\<close>, \<open>diff\<close>,
  \<open>update\<close>, \<open>delete\<close> and \<open>read\<close>.

  JavaScript strings are modelled as \<open>string\<close>, one \<open>char\<close> per code unit (so the code
  units are those below 256), ordered by code, which is the order of the default
  \<open>Array.prototype.sort\<close>. Everything the program takes
  from its platform (the file system, \<open>path\<close>, \<open>crypto\<close>, the Pulumi configuration, the
  \<open>pg\<close> client and the clock) is a field of the record \<open>env\<close>, so that every theorem
  holds for any behaviour of these. A thrown value is the left summand of a result.
\<close>

subsection \<open>Thrown values and the console\<close>

datatype js_value =
    JsError (err_name: string) (err_message: string)
  | JsOther string

text \<open>\<open>new Error(msg)\<close>.\<close>

definition Error :: "string \<Rightarrow> js_value" where
  "Error msg = JsError ''Error'' msg"

text \<open>\<open>error instanceof Error\<close>.\<close>

fun instanceofError :: "js_value \<Rightarrow> bool" where
  "instanceofError (JsError n m) = True"
| "instanceofError (JsOther s) = False"

text \<open>The string a template literal \<open>${error}\<close> inserts (\<open>Error.prototype.toString\<close>).\<close>

fun toString :: "js_value \<Rightarrow> string" where
  "toString (JsError n m) = (if n = [] then m else if m = [] then n else n @ '': '' @ m)"
| "toString (JsOther s) = s"

datatype console_entry =
    ConsoleLog string
  | ConsoleWarn string
  | ConsoleError string js_value

text \<open>\<open>String(n)\<close> for a non-negative integer, as a template literal prints it.\<close>

definition digit_char :: "nat \<Rightarrow> char" where
  "digit_char d = ''0123456789'' ! (d mod 10)"

function string_of_nat :: "nat \<Rightarrow> string" where
  "string_of_nat n = (if n < 10 then [digit_char n] else string_of_nat (n div 10) @ [digit_char (n mod 10)])"
  by pat_completeness auto
termination
  by (relation "measure id") auto

declare string_of_nat.simps [simp del]

subsection \<open>The data of the provider\<close>

record SchemaVersionArgs =
  version :: string
  name :: string
  upSql :: string
  downSql :: "string option"
  database :: string

record SchemaVersionState =
  version :: string
  name :: string
  upSqlChecksum :: string
  downSqlChecksum :: "string option"
  appliedAt :: string

record CreateResult =
  id :: string
  outs :: SchemaVersionState

record DiffResult =
  changes :: bool

record ReadResult =
  id :: string
  props :: SchemaVersionState

record MigrationFile =
  version :: string
  name :: string
  upPath :: string
  downPath :: "string option"

text \<open>
  A \<open>SchemaVersion\<close> resource object, as \<open>createMigrationResources\<close> builds it: its
  resource name, its arguments and the resource objects of its \<open>dependsOn\<close> option. The
  three empty strings that the constructor adds to the properties of every resource are
  left out.
\<close>

datatype SchemaVersion =
  SchemaVersion (res_name: string) (res_args: SchemaVersionArgs) (dependsOn: "SchemaVersion list")

subsection \<open>The platform\<close>

record client_options =
  host :: string
  port :: string
  database :: string
  user :: string
  password :: string

record 'db env =
  existsSync :: "string \<Rightarrow> bool"
  readdirSync :: "string \<Rightarrow> js_value + string list"
  readFileSync :: "string \<Rightarrow> js_value + string"
  path_join :: "string \<Rightarrow> string \<Rightarrow> string"
  path_basename :: "string \<Rightarrow> string \<Rightarrow> string"
  dirname :: string
  sha256 :: "string \<Rightarrow> string"
  config_require :: "string \<Rightarrow> js_value + string"
  config_requireNumber :: "string \<Rightarrow> js_value + string"
  pg_connect :: "client_options \<Rightarrow> 'db \<Rightarrow> js_value option \<times> 'db"
  pg_query :: "string \<Rightarrow> 'db \<Rightarrow> js_value option \<times> 'db"
  pg_end :: "'db \<Rightarrow> js_value option \<times> 'db"
  date_now :: nat
  date_toISOString :: string

text \<open>
  What the operations change: the store behind the client, the statements sent to
  \<open>client.query\<close> so far, and the lines written to the console.
\<close>

record 'db world =
  db :: 'db
  queries :: "string list"
  console :: "console_entry list"

definition console_log :: "string \<Rightarrow> 'db world \<Rightarrow> 'db world" where
  "console_log s w = w\<lparr>console := console w @ [ConsoleLog s]\<rparr>"

definition console_warn :: "string \<Rightarrow> 'db world \<Rightarrow> 'db world" where
  "console_warn s w = w\<lparr>console := console w @ [ConsoleWarn s]\<rparr>"

definition console_error :: "string \<Rightarrow> js_value \<Rightarrow> 'db world \<Rightarrow> 'db world" where
  "console_error s e w = w\<lparr>console := console w @ [ConsoleError s e]\<rparr>"

text \<open>A string is truthy when it is not empty; \<open>undefined\<close> is falsy.\<close>

fun truthy :: "string option \<Rightarrow> bool" where
  "truthy None = False"
| "truthy (Some s) = (s \<noteq> [])"

subsection \<open>The scoped client: \<open>withPgClient\<close>\<close>

definition new_Client :: "'db env \<Rightarrow> js_value + client_options" where
  "new_Client env =
    (case config_require env ''host'' of Inl e \<Rightarrow> Inl e | Inr h \<Rightarrow>
     case config_requireNumber env ''port'' of Inl e \<Rightarrow> Inl e | Inr p \<Rightarrow>
     case config_require env ''database'' of Inl e \<Rightarrow> Inl e | Inr d \<Rightarrow>
     case config_require env ''username'' of Inl e \<Rightarrow> Inl e | Inr u \<Rightarrow>
     case config_require env ''password'' of Inl e \<Rightarrow> Inl e | Inr pw \<Rightarrow>
       Inr \<lparr>host = h, port = p, client_options.database = d, user = u, password = pw\<rparr>)"

definition client_connect :: "'db env \<Rightarrow> client_options \<Rightarrow> 'db world \<Rightarrow> js_value option \<times> 'db world" where
  "client_connect env opts w = (case pg_connect env opts (db w) of (r, d) \<Rightarrow> (r, w\<lparr>db := d\<rparr>))"

definition client_query :: "'db env \<Rightarrow> string \<Rightarrow> 'db world \<Rightarrow> js_value option \<times> 'db world" where
  "client_query env sql w =
    (case pg_query env sql (db w) of (r, d) \<Rightarrow> (r, w\<lparr>db := d, queries := queries w @ [sql]\<rparr>))"

definition client_end :: "'db env \<Rightarrow> 'db world \<Rightarrow> js_value option \<times> 'db world" where
  "client_end env w = (case pg_end env (db w) of (r, d) \<Rightarrow> (r, w\<lparr>db := d\<rparr>))"

text \<open>
  The \<open>finally\<close> block awaits \<open>client.end()\<close> on every path out of the \<open>try\<close>; when
  \<open>end\<close> throws, its error replaces the outcome of the \<open>try\<close>.
\<close>

definition withPgClient ::
  "'db env \<Rightarrow> ('db world \<Rightarrow> (js_value + 'a) \<times> 'db world) \<Rightarrow> 'db world \<Rightarrow> (js_value + 'a) \<times> 'db world" where
  "withPgClient env callback w =
    (case new_Client env of
       Inl e \<Rightarrow> (Inl e, w)
     | Inr opts \<Rightarrow>
        (case (case client_connect env opts w of
                 (Some e, w1) \<Rightarrow> (Inl e, w1)
               | (None, w1) \<Rightarrow> callback w1) of
           (r, w2) \<Rightarrow>
             (case client_end env w2 of
                (Some e, w3) \<Rightarrow> (Inl e, w3)
              | (None, w3) \<Rightarrow> (r, w3))))"

subsection \<open>Discovery: \<open>FileMigrationManager.loadMigrationFiles\<close>\<close>

datatype direction = Up | Down

definition isDigit :: "char \<Rightarrow> bool" where
  "isDigit c \<longleftrightarrow> c \<in> set ''0123456789''"

text \<open>The characters that \<open>.\<close> does not match, among the code units below 256.\<close>

definition isLineTerminator :: "char \<Rightarrow> bool" where
  "isLineTerminator c \<longleftrightarrow> c = CHR 0x0A \<or> c = CHR 0x0D"

definition endsWith :: "string \<Rightarrow> string \<Rightarrow> bool" where
  "endsWith s suffix \<longleftrightarrow>
     length suffix \<le> length s \<and> drop (length s - length suffix) s = suffix"

definition dropEnd :: "nat \<Rightarrow> string \<Rightarrow> string" where
  "dropEnd n s = take (length s - n) s"

definition matchDescription :: "string \<Rightarrow> string \<Rightarrow> direction \<Rightarrow> (string \<times> string \<times> direction) option" where
  "matchDescription v d dir =
     (if d \<noteq> [] \<and> list_all (\<lambda>c. \<not> isLineTerminator c) d then Some (v, d, dir) else None)"

text \<open>
  \<open>file.match(/^V(\d+)__(.+)\.(up|down)\.sql$/)\<close>, returning the three groups. The
  pattern is anchored at both ends. \<open>\d+\<close> is followed by an underscore, which is no
  digit, so the first group is the longest run of digits after \<open>V\<close>. The last part is
  anchored at the end and a name cannot end in both \<open>.up.sql\<close> and \<open>.down.sql\<close>, so the
  second group is all that lies between \<open>__\<close> and that ending; it must be non-empty and
  free of line terminators.
\<close>

definition versionMatch :: "string \<Rightarrow> (string \<times> string \<times> direction) option" where
  "versionMatch file =
    (case file of
       [] \<Rightarrow> None
     | c # rest \<Rightarrow>
        if c \<noteq> CHR ''V'' then None
        else
          let v = takeWhile isDigit rest;
              r1 = dropWhile isDigit rest
          in if v = [] \<or> take 2 r1 \<noteq> ''__'' then None
             else
               let r2 = drop 2 r1
               in if endsWith r2 ''.up.sql'' then matchDescription v (dropEnd 7 r2) Up
                  else if endsWith r2 ''.down.sql'' then matchDescription v (dropEnd 9 r2) Down
                  else None)"

text \<open>The key of the grouping map: \<open>`V${version}__${description}`\<close>.\<close>

definition migrationKey :: "string \<Rightarrow> string \<Rightarrow> string" where
  "migrationKey v d = ''V'' @ v @ ''__'' @ d"

text \<open>\<open>description.replace(/_/g, '-')\<close>.\<close>

definition replaceUnderscores :: "string \<Rightarrow> string" where
  "replaceUnderscores d = map (\<lambda>c. if c = CHR ''_'' then CHR ''-'' else c) d"

text \<open>
  The \<open>Map<string, MigrationFile>\<close> is an association list in insertion order, which is
  the order of \<open>migrationMap.values()\<close>. \<open>mapHas\<close> is \<open>has\<close>, \<open>mapSet\<close> is \<open>set\<close> for a key
  that is not present, and \<open>mapModify\<close> is the assignment to a field of the object that
  \<open>get\<close> returns: the entry changes where it stands.
\<close>

definition mapHas :: "(string \<times> MigrationFile) list \<Rightarrow> string \<Rightarrow> bool" where
  "mapHas mm k \<longleftrightarrow> k \<in> set (map fst mm)"

definition mapSet :: "(string \<times> MigrationFile) list \<Rightarrow> string \<Rightarrow> MigrationFile \<Rightarrow> (string \<times> MigrationFile) list" where
  "mapSet mm k m = mm @ [(k, m)]"

definition mapModify ::
  "(string \<times> MigrationFile) list \<Rightarrow> string \<Rightarrow> (MigrationFile \<Rightarrow> MigrationFile) \<Rightarrow> (string \<times> MigrationFile) list" where
  "mapModify mm k f = map (\<lambda>(k', m). if k' = k then (k', f m) else (k', m)) mm"

text \<open>One turn of the loop over the sorted file names.\<close>

definition loadFile ::
  "(string \<Rightarrow> string) \<Rightarrow> (string \<times> MigrationFile) list \<Rightarrow> string \<Rightarrow> (string \<times> MigrationFile) list" where
  "loadFile join mm file =
    (case versionMatch file of
       None \<Rightarrow> mm
     | Some (v, description, dir) \<Rightarrow>
        let key = migrationKey v description;
            mm1 = (if \<not> mapHas mm key
                   then mapSet mm key
                          \<lparr>MigrationFile.version = v, name = replaceUnderscores description,
                           upPath = [], downPath = None\<rparr>
                   else mm);
            filePath = join file
        in if dir = Up
           then mapModify mm1 key (\<lambda>m. m\<lparr>upPath := filePath\<rparr>)
           else mapModify mm1 key (\<lambda>m. m\<lparr>downPath := Some filePath\<rparr>))"

definition migrationMap :: "(string \<Rightarrow> string) \<Rightarrow> string list \<Rightarrow> (string \<times> MigrationFile) list" where
  "migrationMap join files = foldl (loadFile join) [] (sort files)"

text \<open>
  \<open>a.localeCompare(b, undefined, { numeric: true })\<close> on two strings of decimal digits, which
  is all that the pattern lets into a version: the collation of the platform compares the
  numbers they denote, so leading zeros do not count. (The collation does so for runs of
  digits of ordinary length; versions of hundreds of digits are outside this model.)
\<close>

definition digitValue :: "char \<Rightarrow> nat" where
  "digitValue c = of_char c - of_char CHR ''0''"

definition numericValue :: "string \<Rightarrow> nat" where
  "numericValue s = foldl (\<lambda>n c. 10 * n + digitValue c) 0 s"

definition localeCompareNumeric :: "string \<Rightarrow> string \<Rightarrow> int" where
  "localeCompareNumeric a b =
     (if numericValue a < numericValue b then - 1
      else if numericValue b < numericValue a then 1 else 0)"

text \<open>
  \<open>Array.prototype.sort(compare)\<close> is a stable sort: elements that compare equal keep
  their order. Insertion from the right is such a sort.
\<close>

fun insertSorted :: "('a \<Rightarrow> 'a \<Rightarrow> int) \<Rightarrow> 'a \<Rightarrow> 'a list \<Rightarrow> 'a list" where
  "insertSorted cmp x [] = [x]"
| "insertSorted cmp x (y # ys) =
     (if cmp x y \<le> 0 then x # y # ys else y # insertSorted cmp x ys)"

definition Array_sort :: "('a \<Rightarrow> 'a \<Rightarrow> int) \<Rightarrow> 'a list \<Rightarrow> 'a list" where
  "Array_sort cmp xs = foldr (insertSorted cmp) xs []"

text \<open>
  Lines 167 to 201: from the directory listing to the catalog. \<open>join\<close> is
  \<open>path.join(this.migrationsPath, _)\<close>.
\<close>

definition discover :: "(string \<Rightarrow> string) \<Rightarrow> string list \<Rightarrow> MigrationFile list" where
  "discover join files =
     Array_sort (\<lambda>a b. localeCompareNumeric (MigrationFile.version a) (MigrationFile.version b))
       (filter (\<lambda>m. upPath m \<noteq> []) (map snd (migrationMap join files)))"

definition loadMigrationFiles ::
  "'db env \<Rightarrow> string \<Rightarrow> 'db world \<Rightarrow> (js_value + MigrationFile list) \<times> 'db world" where
  "loadMigrationFiles env migrationsPath w =
    (if \<not> existsSync env migrationsPath
     then (Inl (Error (''Migrations directory not found: '' @ migrationsPath)), w)
     else
       (case readdirSync env migrationsPath of
          Inl e \<Rightarrow> (Inl e, w)
        | Inr files \<Rightarrow>
           let migrationFiles = discover (path_join env migrationsPath) files
           in (Inr migrationFiles,
               if length migrationFiles = 0
               then console_warn (''No migration files found in '' @ migrationsPath) w
               else console_log (''Found '' @ string_of_nat (length migrationFiles)
                                  @ '' migrations to process'') w)))"

subsection \<open>The resource chain: \<open>createMigrationResources\<close>\<close>

definition readSqlFile :: "'db env \<Rightarrow> string \<Rightarrow> js_value + string" where
  "readSqlFile env filePath =
    (if \<not> existsSync env filePath then Inl (Error (''SQL file not found: '' @ filePath))
     else readFileSync env filePath)"

text \<open>
  The loop over \<open>this.migrationFiles\<close>, with its two variables \<open>migrations\<close> and
  \<open>previousMigration\<close>. An exception of \<open>readSqlFile\<close> or of \<open>config.require\<close> leaves the
  loop and the method.
\<close>

fun createLoop ::
  "'db env \<Rightarrow> MigrationFile list \<Rightarrow> SchemaVersion list \<Rightarrow> SchemaVersion option
     \<Rightarrow> js_value + SchemaVersion list" where
  "createLoop env [] migrations previousMigration = Inr migrations"
| "createLoop env (migrationFile # rest) migrations previousMigration =
    (case readSqlFile env (upPath migrationFile) of
       Inl e \<Rightarrow> Inl e
     | Inr up \<Rightarrow>
        (case (if truthy (downPath migrationFile)
               then (case readSqlFile env (the (downPath migrationFile)) of
                       Inl e \<Rightarrow> Inl e | Inr down \<Rightarrow> Inr (Some down))
               else Inr None) of
           Inl e \<Rightarrow> Inl e
         | Inr down \<Rightarrow>
            (case config_require env ''database'' of
               Inl e \<Rightarrow> Inl e
             | Inr d \<Rightarrow>
                let resourceName = path_basename env (upPath migrationFile) ''.sql'';
                    migration =
                      SchemaVersion resourceName
                        \<lparr>SchemaVersionArgs.version = MigrationFile.version migrationFile,
                         name = MigrationFile.name migrationFile,
                         upSql = up, downSql = down, database = d\<rparr>
                        (case previousMigration of Some p \<Rightarrow> [p] | None \<Rightarrow> [])
                in createLoop env rest (migrations @ [migration]) (Some migration))))"

definition createMigrationResources :: "'db env \<Rightarrow> MigrationFile list \<Rightarrow> js_value + SchemaVersion list" where
  "createMigrationResources env migrationFiles = createLoop env migrationFiles [] None"

subsection \<open>The provider\<close>

definition checksumOf :: "'db env \<Rightarrow> string option \<Rightarrow> string option" where
  "checksumOf env sql = (if truthy sql then Some (sha256 env (the sql)) else None)"

text \<open>The arrow function that \<open>create\<close> passes to \<open>withPgClient\<close>.\<close>

definition applyCallback ::
  "'db env \<Rightarrow> SchemaVersionArgs \<Rightarrow> 'db world \<Rightarrow> (js_value + CreateResult) \<times> 'db world" where
  "applyCallback env inputs w1 =
     (case client_query env (upSql inputs) w1 of
        (Some e, w2) \<Rightarrow> (Inl e, w2)
      | (None, w2) \<Rightarrow>
         let upChecksum = sha256 env (upSql inputs);
             downChecksum = checksumOf env (downSql inputs);
             w3 = console_log (''Applied migration: '' @ SchemaVersionArgs.version inputs
                                @ '' - '' @ SchemaVersionArgs.name inputs) w2
         in (Inr \<lparr>CreateResult.id =
                    SchemaVersionArgs.database inputs @ ''-''
                      @ SchemaVersionArgs.version inputs @ ''-''
                      @ string_of_nat (date_now env),
                  outs = \<lparr>SchemaVersionState.version = SchemaVersionArgs.version inputs,
                          name = SchemaVersionArgs.name inputs,
                          upSqlChecksum = upChecksum,
                          downSqlChecksum = downChecksum,
                          appliedAt = date_toISOString env\<rparr>\<rparr>, w3))"

text \<open>
  \<open>create\<close>: the \<open>catch\<close> handler logs the details of an \<open>Error\<close> and throws a new
  \<open>Error\<close> whose message names the version and the string of the caught value.
\<close>

definition create ::
  "'db env \<Rightarrow> SchemaVersionArgs \<Rightarrow> 'db world \<Rightarrow> (js_value + CreateResult) \<times> 'db world" where
  "create env inputs w =
    (case withPgClient env (applyCallback env inputs) w of
       (Inr r, w') \<Rightarrow> (Inr r, w')
     | (Inl error, w') \<Rightarrow>
         (Inl (Error (''Failed to apply migration '' @ SchemaVersionArgs.version inputs
                       @ '': '' @ toString error)),
          if instanceofError error then console_error ''Migration error details:'' error w' else w'))"

definition upMismatch :: "SchemaVersionArgs \<Rightarrow> js_value" where
  "upMismatch news =
     Error (''Migration '' @ SchemaVersionArgs.version news
            @ '' UP SQL checksum mismatch. SchemaVersion resources are immutable once applied.'')"

definition downMismatch :: "SchemaVersionArgs \<Rightarrow> js_value" where
  "downMismatch news =
     Error (''Migration '' @ SchemaVersionArgs.version news
            @ '' DOWN SQL checksum mismatch. SchemaVersion resources are immutable once applied.'')"

definition diff :: "'db env \<Rightarrow> string \<Rightarrow> SchemaVersionState \<Rightarrow> SchemaVersionArgs \<Rightarrow> js_value + DiffResult" where
  "diff env ident olds news =
    (let currentUpChecksum = sha256 env (upSql news);
         currentDownChecksum = checksumOf env (downSql news)
     in if upSqlChecksum olds \<noteq> currentUpChecksum then Inl (upMismatch news)
        else if downSqlChecksum olds \<noteq> currentDownChecksum then Inl (downMismatch news)
        else Inr \<lparr>changes = False\<rparr>)"

definition update :: "string \<Rightarrow> SchemaVersionState \<Rightarrow> SchemaVersionArgs \<Rightarrow> js_value + unit" where
  "update ident olds news =
     Inl (Error (''Migration '' @ SchemaVersionArgs.version news
                 @ '' cannot be updated. SchemaVersion resources are immutable.''))"

text \<open>The arrow function that \<open>delete\<close> passes to \<open>withPgClient\<close>.\<close>

definition rollbackCallback ::
  "'db env \<Rightarrow> SchemaVersionState \<Rightarrow> string \<Rightarrow> 'db world \<Rightarrow> (js_value + unit) \<times> 'db world" where
  "rollbackCallback env stored path w1 =
    (case readFileSync env path of
       Inl e \<Rightarrow> (Inl e, w1)
     | Inr down \<Rightarrow>
        (case client_query env down w1 of
           (Some e, w2) \<Rightarrow> (Inl e, w2)
         | (None, w2) \<Rightarrow>
            (Inr (), console_log (''Rolled back migration: '' @ SchemaVersionState.version stored
                                   @ '' - '' @ SchemaVersionState.name stored) w2)))"

text \<open>
  \<open>delete\<close> builds a new \<open>FileMigrationManager\<close> on \<open>path.join(__dirname, "sql")\<close>, whose
  constructor runs the discovery. \<open>resolveDownPath\<close> is \<open>migration?.downPath\<close> for the
  \<open>migration\<close> that \<open>find\<close> returns, the first catalog entry of the stored version. The
  \<open>catch\<close> handler logs the error and throws it again.
\<close>

definition resolveDownPath :: "MigrationFile list \<Rightarrow> SchemaVersionState \<Rightarrow> string option" where
  "resolveDownPath migrationFiles stored =
     (case find (\<lambda>m. MigrationFile.version m = SchemaVersionState.version stored) migrationFiles of
        None \<Rightarrow> None
      | Some migration \<Rightarrow> downPath migration)"

definition delete ::
  "'db env \<Rightarrow> string \<Rightarrow> SchemaVersionState \<Rightarrow> 'db world \<Rightarrow> (js_value + unit) \<times> 'db world" where
  "delete env ident stored w =
    (case loadMigrationFiles env (path_join env (dirname env) ''sql'') w of
       (Inl e, w0) \<Rightarrow> (Inl e, w0)
     | (Inr migrationFiles, w0) \<Rightarrow>
        let path = resolveDownPath migrationFiles stored
        in if \<not> truthy path \<or> \<not> existsSync env (the path)
           then (Inr (), console_warn (''No down migration found for '' @ SchemaVersionState.version stored
                                        @ '', skipping rollback'') w0)
           else
             (case withPgClient env (rollbackCallback env stored (the path)) w0 of
                (Inr u, w') \<Rightarrow> (Inr u, w')
              | (Inl error, w') \<Rightarrow>
                  (Inl error,
                   console_error (''Failed to rollback migration '' @ SchemaVersionState.version stored @ '':'')
                     error w')))"

definition read :: "string \<Rightarrow> SchemaVersionState \<Rightarrow> ReadResult" where
  "read ident p = \<lparr>ReadResult.id = ident, props = p\<rparr>"

subsection \<open>A small platform for concrete runs\<close>

text \<open>
  \<open>sample_env dir\<close> is a platform whose directory \<open>sql\<close> holds the files \<open>dir\<close> (name and
  content), with \<open>__dirname\<close> empty. The store keeps the statements it has run and rejects
  the statement \<open>bad\<close>. \<open>sha256\<close> is a stand-in that tags the text, since the theorems
  hold for any fingerprint function.
\<close>

definition sample_env :: "(string \<times> string) list \<Rightarrow> (string list) env" where
  "sample_env dir =
    \<lparr>existsSync = (\<lambda>p. p = ''sql'' \<or> p \<in> set (map (\<lambda>(f, c). ''sql/'' @ f) dir)),
     readdirSync = (\<lambda>p. if p = ''sql'' then Inr (map fst dir) else Inl (JsError ''Error'' ''ENOTDIR'')),
     readFileSync = (\<lambda>p. case map_of (map (\<lambda>(f, c). (''sql/'' @ f, c)) dir) p of
                            Some c \<Rightarrow> Inr c | None \<Rightarrow> Inl (JsError ''Error'' ''ENOENT'')),
     path_join = (\<lambda>a b. if a = [] then b else a @ ''/'' @ b),
     path_basename = (\<lambda>p ext. dropEnd (length ext) (rev (takeWhile (\<lambda>c. c \<noteq> CHR ''/'') (rev p)))),
     dirname = [],
     sha256 = (\<lambda>s. ''sha256:'' @ s),
     config_require = (\<lambda>k. Inr k),
     config_requireNumber = (\<lambda>k. Inr ''5432''),
     pg_connect = (\<lambda>opts d. (None, d)),
     pg_query = (\<lambda>sql d. if sql = ''bad'' then (Some (JsError ''error'' ''syntax error''), d)
                          else (None, d @ [sql])),
     pg_end = (\<lambda>d. (None, d)),
     date_now = 1700000000000,
     date_toISOString = ''2023-11-14T22:13:20.000Z''\<rparr>"

definition sample_world :: "(string list) world" where
  "sample_world = \<lparr>db = [], queries = [], console = []\<rparr>"

definition sample_args :: "string \<Rightarrow> string option \<Rightarrow> SchemaVersionArgs" where
  "sample_args up down =
     \<lparr>SchemaVersionArgs.version = ''1'', name = ''a'', upSql = up, downSql = down,
      database = ''database''\<rparr>"

definition sample_state :: "string \<Rightarrow> string option \<Rightarrow> SchemaVersionState" where
  "sample_state upSum downSum =
     \<lparr>SchemaVersionState.version = ''1'', name = ''a'', upSqlChecksum = upSum,
      downSqlChecksum = downSum, appliedAt = ''2023-11-14T22:13:20.000Z''\<rparr>"

subsection \<open>Where a group of the map comes from\<close>

text \<open>
  The invariant of the loop of \<open>loadMigrationFiles\<close>, for a set \<open>S\<close> of file names read so
  far: the key and the fields of an entry come from a matching file of \<open>S\<close>, and an
  \<open>upPath\<close> that is set comes from an up file of \<open>S\<close> with the entry's key.
\<close>

definition from_files :: "(string \<Rightarrow> string) \<Rightarrow> string set \<Rightarrow> string \<times> MigrationFile \<Rightarrow> bool" where
  "from_files join S km \<longleftrightarrow>
     (\<exists>f\<in>S. \<exists>d dir. versionMatch f = Some (MigrationFile.version (snd km), d, dir)
         \<and> fst km = migrationKey (MigrationFile.version (snd km)) d
         \<and> MigrationFile.name (snd km) = replaceUnderscores d)
     \<and> (upPath (snd km) \<noteq> [] \<longrightarrow>
          (\<exists>f\<in>S. \<exists>v d. versionMatch f = Some (v, d, Up) \<and> fst km = migrationKey v d
              \<and> upPath (snd km) = join f))"

subsection \<open>What a chain of resources is\<close>

text \<open>
  \<open>chained prev rs\<close>: the first resource of \<open>rs\<close> depends on \<open>prev\<close> alone (on nothing when
  there is none), and every later one on its predecessor alone. \<open>built_from env r mf\<close>: the
  resource \<open>r\<close> carries the name, the version and the script texts of the catalog entry
  \<open>mf\<close>.
\<close>

fun chained :: "SchemaVersion option \<Rightarrow> SchemaVersion list \<Rightarrow> bool" where
  "chained prev [] = True"
| "chained prev (r # rs) =
     (dependsOn r = (case prev of Some p \<Rightarrow> [p] | None \<Rightarrow> []) \<and> chained (Some r) rs)"

definition built_from :: "'db env \<Rightarrow> SchemaVersion \<Rightarrow> MigrationFile \<Rightarrow> bool" where
  "built_from env r mf \<longleftrightarrow>
     res_name r = path_basename env (upPath mf) ''.sql''
     \<and> SchemaVersionArgs.version (res_args r) = MigrationFile.version mf
     \<and> SchemaVersionArgs.name (res_args r) = MigrationFile.name mf
     \<and> readSqlFile env (upPath mf) = Inr (upSql (res_args r))
     \<and> (if truthy (downPath mf)
         then map_option Inr (downSql (res_args r)) = Some (readSqlFile env (the (downPath mf)))
         else downSql (res_args r) = None)
     \<and> config_require env ''database'' = Inr (SchemaVersionArgs.database (res_args r))"

section \<open>Discovery\<close>

subsection \<open>The comparator sort is a stable sort on the numeric value\<close>

lemma insertSorted_insort_key:
  "insertSorted (\<lambda>a b. localeCompareNumeric (f a) (f b)) x xs
     = insort_key (\<lambda>m. numericValue (f m)) x xs"
  by (induction xs) (simp_all add: localeCompareNumeric_def)

lemma Array_sort_sort_key:
  "Array_sort (\<lambda>a b. localeCompareNumeric (f a) (f b)) xs = sort_key (\<lambda>m. numericValue (f m)) xs"
  by (induction xs) (simp_all add: Array_sort_def sort_key_def insertSorted_insort_key)

lemma discover_sort_key:
  "discover join files =
     sort_key (\<lambda>m. numericValue (MigrationFile.version m))
       (filter (\<lambda>m. upPath m \<noteq> []) (map snd (migrationMap join files)))"
  unfolding discover_def by (rule Array_sort_sort_key)

lemma set_discover:
  "set (discover join files) = {m \<in> snd ` set (migrationMap join files). upPath m \<noteq> []}"
  unfolding discover_sort_key by auto

subsection \<open>The listing order does not matter\<close>

lemma sort_mset_cong:
  fixes xs ys :: "'a::linorder list"
  assumes "mset xs = mset ys"
  shows "sort xs = sort ys"
proof (rule properties_for_sort)
  show "mset (sort ys) = mset xs" using assms by simp
  show "sorted (sort ys)" by simp
qed

lemma migrationMap_mset_cong:
  assumes "mset files' = mset files"
  shows "migrationMap join files' = migrationMap join files"
  unfolding migrationMap_def using sort_mset_cong[OF assms] by simp

lemma discover_mset_cong:
  assumes "mset files' = mset files"
  shows "discover join files' = discover join files"
  unfolding discover_def using migrationMap_mset_cong[OF assms, of join] by simp

subsection \<open>The loop keeps the keys distinct and every entry tied to its files\<close>

lemma from_files_mono:
  assumes "from_files join S km" and "S \<subseteq> T"
  shows "from_files join T km"
proof -
  have bex: "(\<exists>f\<in>S. P f) \<Longrightarrow> (\<exists>f\<in>T. P f)" for P
    using assms(2) by blast
  from assms(1) show ?thesis
    unfolding from_files_def
    by (intro conjI impI bex) simp_all
qed

lemma map_fst_mapModify: "map fst (mapModify mm k g) = map fst mm"
  by (induction mm) (auto simp: mapModify_def)

lemma set_mapModifyD:
  assumes "km \<in> set (mapModify mm k g)"
  shows "\<exists>m. (fst km, m) \<in> set mm \<and> snd km = (if fst km = k then g m else m)"
proof -
  from assms obtain k' m where in_mm: "(k', m) \<in> set mm"
    and km: "km = (if k' = k then (k', g m) else (k', m))"
    by (auto simp: mapModify_def)
  from km have "fst km = k'" "snd km = (if k' = k then g m else m)"
    by (simp_all split: if_splits)
  with in_mm show ?thesis by blast
qed

lemma loadFile_None: "versionMatch f = None \<Longrightarrow> loadFile join mm f = mm"
  by (simp add: loadFile_def)

lemma loadFile_Some:
  "versionMatch f = Some (v, d, dir) \<Longrightarrow>
   loadFile join mm f =
     mapModify
       (if mapHas mm (migrationKey v d) then mm
        else mm @ [(migrationKey v d,
                    \<lparr>MigrationFile.version = v, name = replaceUnderscores d, upPath = [], downPath = None\<rparr>)])
       (migrationKey v d)
       (if dir = Up then (\<lambda>m. m\<lparr>upPath := join f\<rparr>) else (\<lambda>m. m\<lparr>downPath := Some (join f)\<rparr>))"
  by (simp add: loadFile_def Let_def mapSet_def)

lemma distinct_loadFile:
  "distinct (map fst mm) \<Longrightarrow> distinct (map fst (loadFile join mm f))"
  by (cases "versionMatch f")
     (auto simp: loadFile_None loadFile_Some map_fst_mapModify mapHas_def)

lemma from_files_loadFile:
  assumes inv: "\<forall>km\<in>set mm. from_files join S km"
    and km: "km \<in> set (loadFile join mm f)"
  shows "from_files join (insert f S) km"
proof (cases "versionMatch f")
  case None
  with inv km show ?thesis
    by (auto simp: loadFile_None intro: from_files_mono)
next
  case (Some t)
  obtain v d dir where t: "t = (v, d, dir)" by (cases t)
  let ?k = "migrationKey v d"
  let ?fresh = "\<lparr>MigrationFile.version = v, name = replaceUnderscores d, upPath = [], downPath = None\<rparr>"
  let ?g = "if dir = Up then (\<lambda>m. m\<lparr>upPath := join f\<rparr>) else (\<lambda>m. m\<lparr>downPath := Some (join f)\<rparr>)"
  from km Some t obtain m0 where
    m0: "(fst km, m0) \<in> set (if mapHas mm ?k then mm else mm @ [(?k, ?fresh)])"
    and snd: "snd km = (if fst km = ?k then ?g m0 else m0)"
    by (auto simp: loadFile_Some dest!: set_mapModifyD)
  have base: "from_files join (insert f S) (fst km, m0)"
  proof (cases "(fst km, m0) \<in> set mm")
    case True
    with inv show ?thesis by (auto intro: from_files_mono)
  next
    case False
    with m0 have "fst km = ?k" "m0 = ?fresh" by (auto split: if_splits)
    with Some t show ?thesis by (simp add: from_files_def)
  qed
  show ?thesis
  proof (cases "fst km = ?k")
    case False
    with snd base show ?thesis by (cases km) simp
  next
    case True
    have fields: "MigrationFile.version (snd km) = MigrationFile.version m0"
      "MigrationFile.name (snd km) = MigrationFile.name m0"
      using snd by (auto split: if_splits)
    have up: "upPath (snd km) = upPath m0 \<or> (dir = Up \<and> upPath (snd km) = join f)"
      using snd by (auto split: if_splits)
    from base have 1: "\<exists>f'\<in>insert f S. \<exists>d' dir'. versionMatch f' = Some (MigrationFile.version m0, d', dir')
         \<and> fst km = migrationKey (MigrationFile.version m0) d'
         \<and> MigrationFile.name m0 = replaceUnderscores d'"
      and 2: "upPath m0 \<noteq> [] \<longrightarrow> 
          (\<exists>f'\<in>insert f S. \<exists>v' d'. versionMatch f' = Some (v', d', Up) \<and> fst km = migrationKey v' d'
              \<and> upPath m0 = join f')"
      by (simp_all add: from_files_def)
    from up show ?thesis
    proof
      assume "upPath (snd km) = upPath m0"
      with 1 2 fields show ?thesis unfolding from_files_def by simp
    next
      assume "dir = Up \<and> upPath (snd km) = join f"
      with Some t True have "\<exists>f'\<in>insert f S. \<exists>v' d'. versionMatch f' = Some (v', d', Up) \<and> fst km = migrationKey v' d'
              \<and> upPath (snd km) = join f'"
        by auto
      with 1 fields show ?thesis unfolding from_files_def by simp
    qed
  qed
qed

lemma foldl_loadFile_inv:
  "distinct (map fst mm) \<Longrightarrow> \<forall>km\<in>set mm. from_files join S km \<Longrightarrow>
   distinct (map fst (foldl (loadFile join) mm fs))
   \<and> (\<forall>km\<in>set (foldl (loadFile join) mm fs). from_files join (S \<union> set fs) km)"
proof (induction fs arbitrary: mm S)
  case Nil
  then show ?case by simp
next
  case (Cons f fs)
  have "distinct (map fst (loadFile join mm f))"
    using Cons.prems(1) by (rule distinct_loadFile)
  moreover have "\<forall>km\<in>set (loadFile join mm f). from_files join (insert f S) km"
    using Cons.prems(2) by (blast intro: from_files_loadFile)
  ultimately show ?case
    using Cons.IH[of "loadFile join mm f" "insert f S"] by simp
qed

lemma migrationMap_inv:
  "distinct (map fst (migrationMap join files))"
  "km \<in> set (migrationMap join files) \<Longrightarrow> from_files join (set files) km"
  using foldl_loadFile_inv[of "[]" join "{}" "sort files"]
  by (simp_all add: migrationMap_def)

subsection \<open>Keys determine version and description\<close>

lemma versionMatch_digits:
  assumes "versionMatch f = Some (v, d, dir)"
  shows "\<forall>c\<in>set v. isDigit c"
proof -
  from assms obtain rest where "v = takeWhile isDigit rest"
    by (auto simp: versionMatch_def Let_def matchDescription_def split: list.splits if_splits)
  then show ?thesis by (auto dest: set_takeWhileD)
qed

lemma takeWhile_digits_key:
  assumes "\<forall>c\<in>set v. isDigit c"
  shows "takeWhile isDigit (v @ ''__'' @ d) = v"
proof -
  have "\<not> isDigit CHR ''_''" by (simp add: isDigit_def)
  then have "takeWhile isDigit (''__'' @ d) = []" by simp
  with assms show ?thesis by (simp add: takeWhile_append2)
qed

lemma migrationKey_inj:
  assumes v: "\<forall>c\<in>set v. isDigit c" and v': "\<forall>c\<in>set v'. isDigit c"
    and eq: "migrationKey v d = migrationKey v' d'"
  shows "v = v' \<and> d = d'"
proof -
  from eq have e: "v @ ''__'' @ d = v' @ ''__'' @ d'" by (simp add: migrationKey_def)
  then have "takeWhile isDigit (v @ ''__'' @ d) = takeWhile isDigit (v' @ ''__'' @ d')" by simp
  then have "v = v'" using v v' by (simp only: takeWhile_digits_key)
  with e show ?thesis by simp
qed

subsection \<open>Consequences for the catalog\<close>

lemma catalog_entry_has_up_file:
  assumes "m \<in> set (discover join files)"
  shows "upPath m \<noteq> [] \<and>
         (\<exists>f\<in>set files. \<exists>d. versionMatch f = Some (MigrationFile.version m, d, Up)
             \<and> MigrationFile.name m = replaceUnderscores d \<and> upPath m = join f)"
proof -
  from assms obtain k where km: "(k, m) \<in> set (migrationMap join files)" and up: "upPath m \<noteq> []"
    by (auto simp: set_discover)
  from migrationMap_inv(2)[OF km] up obtain f1 d1 dir1 f2 v2 d2 where
    f1: "f1 \<in> set files" "versionMatch f1 = Some (MigrationFile.version m, d1, dir1)"
        "k = migrationKey (MigrationFile.version m) d1" "MigrationFile.name m = replaceUnderscores d1"
    and f2: "f2 \<in> set files" "versionMatch f2 = Some (v2, d2, Up)" "k = migrationKey v2 d2"
        "upPath m = join f2"
    by (auto simp: from_files_def)
  from f1(3) f2(3) have "migrationKey (MigrationFile.version m) d1 = migrationKey v2 d2" by simp
  from migrationKey_inj[OF versionMatch_digits[OF f1(2)] versionMatch_digits[OF f2(2)] this]
  have "v2 = MigrationFile.version m" "d2 = d1" by simp_all
  with f1 f2 up show ?thesis by blast
qed

lemma group_without_up_file:
  assumes km: "km \<in> set (migrationMap join files)"
    and no_up: "\<forall>f\<in>set files. \<forall>v d. versionMatch f = Some (v, d, Up) \<longrightarrow> migrationKey v d \<noteq> fst km"
  shows "upPath (snd km) = [] \<and> snd km \<notin> set (discover join files)"
proof -
  have "upPath (snd km) = []"
  proof (rule ccontr)
    assume "upPath (snd km) \<noteq> []"
    with migrationMap_inv(2)[OF km] obtain f v d where
      "f \<in> set files" "versionMatch f = Some (v, d, Up)" "fst km = migrationKey v d"
      by (auto simp: from_files_def)
    with no_up show False by auto
  qed
  then show ?thesis by (simp add: set_discover)
qed

lemma loadMigrationFiles_ok:
  assumes "existsSync env p" and "readdirSync env p = Inr files"
  shows "fst (loadMigrationFiles env p w) = Inr (discover (path_join env p) files)"
  using assms by (simp add: loadMigrationFiles_def Let_def)

lemma discover_sorted: "sorted (map (\<lambda>m. numericValue (MigrationFile.version m)) (discover join files))"
  unfolding discover_sort_key by (rule sorted_sort_key)

lemma localeCompareNumeric_le: "localeCompareNumeric a b \<le> 0 \<longleftrightarrow> numericValue a \<le> numericValue b"
  by (simp add: localeCompareNumeric_def)

lemma discover_sorted_wrt:
  "sorted_wrt (\<lambda>a b. localeCompareNumeric (MigrationFile.version a) (MigrationFile.version b) \<le> 0)
     (discover join files)"
  using discover_sorted[of join files]
  by (simp add: sorted_map localeCompareNumeric_le)

lemma mset_discover:
  "mset (discover join files) = mset (filter (\<lambda>m. upPath m \<noteq> []) (map snd (migrationMap join files)))"
  unfolding discover_sort_key by simp

lemma versionMatch_name:
  assumes "versionMatch f = Some (v, d, dir)"
  shows "f = migrationKey v d @ (case dir of Up \<Rightarrow> ''.up.sql'' | Down \<Rightarrow> ''.down.sql'')"
proof -
  from assms obtain rest where f: "f = CHR ''V'' # rest"
    by (auto simp: versionMatch_def split: list.splits if_splits)
  let ?r1 = "dropWhile isDigit rest"
  let ?r2 = "drop 2 ?r1"
  from assms f have v: "v = takeWhile isDigit rest" and u: "take 2 ?r1 = ''__''"
    by (auto simp: versionMatch_def Let_def matchDescription_def split: if_splits)
  have rest: "rest = v @ ''__'' @ ?r2"
    using v u by (metis takeWhile_dropWhile_id append_take_drop_id)
  have tail: "?r2 = d @ (case dir of Up \<Rightarrow> ''.up.sql'' | Down \<Rightarrow> ''.down.sql'')"
  proof (cases "endsWith ?r2 ''.up.sql''")
    case True
    with assms f have "d = dropEnd 7 ?r2" "dir = Up"
      by (auto simp: versionMatch_def Let_def matchDescription_def split: if_splits)
    moreover from True have "drop (length ?r2 - 7) ?r2 = ''.up.sql''"
      by (simp add: endsWith_def)
    ultimately show ?thesis
      by (metis append_take_drop_id dropEnd_def direction.simps(3))
  next
    case False
    with assms f have "d = dropEnd 9 ?r2" "dir = Down" and e: "endsWith ?r2 ''.down.sql''"
      by (auto simp: versionMatch_def Let_def matchDescription_def split: if_splits)
    moreover from e have "drop (length ?r2 - 9) ?r2 = ''.down.sql''"
      by (simp add: endsWith_def)
    ultimately show ?thesis
      by (metis append_take_drop_id dropEnd_def direction.simps(4))
  qed
  from f rest tail show ?thesis by (simp add: migrationKey_def)
qed

lemma set_mapModifyI:
  assumes "(k', m) \<in> set mm"
  shows "(k', if k' = k then g m else m) \<in> set (mapModify mm k g)"
proof -
  have "(\<lambda>(k', m). if k' = k then (k', g m) else (k', m)) (k', m) \<in> set (mapModify mm k g)"
    unfolding mapModify_def set_map using assms by (rule imageI)
  then show ?thesis by (simp split: if_splits)
qed

lemma same_key_same_up_file:
  assumes "versionMatch f = Some (v, d, Up)" and "versionMatch g = Some (v', d', Up)"
    and "migrationKey v d = migrationKey v' d'"
  shows "f = g"
proof -
  from migrationKey_inj[OF versionMatch_digits[OF assms(1)] versionMatch_digits[OF assms(2)] assms(3)]
  have "v = v'" "d = d'" by simp_all
  with versionMatch_name[OF assms(1)] versionMatch_name[OF assms(2)] show ?thesis by simp
qed

lemma up_files_loadFile:
  assumes inv: "\<forall>f\<in>S. \<forall>v d. versionMatch f = Some (v, d, Up)
                 \<longrightarrow> (\<exists>m. (migrationKey v d, m) \<in> set mm \<and> upPath m = join f)"
    and f: "f \<in> insert g S" and m: "versionMatch f = Some (v, d, Up)"
  shows "\<exists>m. (migrationKey v d, m) \<in> set (loadFile join mm g) \<and> upPath m = join f"
proof (cases "versionMatch g")
  case None
  with m have "f \<noteq> g" by auto
  with f inv m None show ?thesis by (auto simp: loadFile_None)
next
  case (Some t)
  obtain v' d' dir' where t: "t = (v', d', dir')" by (cases t)
  let ?k = "migrationKey v' d'"
  let ?fresh = "\<lparr>MigrationFile.version = v', name = replaceUnderscores d', upPath = [], downPath = None\<rparr>"
  let ?mm1 = "if mapHas mm ?k then mm else mm @ [(?k, ?fresh)]"
  let ?upd = "if dir' = Up then (\<lambda>m. m\<lparr>upPath := join g\<rparr>) else (\<lambda>m. m\<lparr>downPath := Some (join g)\<rparr>)"
  have lf: "loadFile join mm g = mapModify ?mm1 ?k ?upd"
    using Some t by (simp add: loadFile_Some)
  show ?thesis
  proof (cases "f = g")
    case True
    with m Some t have eq: "v' = v" "d' = d" "dir' = Up" by simp_all
    have "\<exists>m0. (?k, m0) \<in> set ?mm1"
      by (auto simp: mapHas_def)
    then obtain m0 where "(?k, m0) \<in> set ?mm1" ..
    from set_mapModifyI[OF this, of ?k ?upd]
    have "(?k, ?upd m0) \<in> set (loadFile join mm g)" by (simp add: lf)
    with eq True show ?thesis by auto
  next
    case False
    with f have "f \<in> S" by simp
    with inv m obtain m0 where m0: "(migrationKey v d, m0) \<in> set mm" "upPath m0 = join f"
      by blast
    then have in1: "(migrationKey v d, m0) \<in> set ?mm1" by simp
    from set_mapModifyI[OF in1, of ?k ?upd]
    have in2: "(migrationKey v d, if migrationKey v d = ?k then ?upd m0 else m0)
                 \<in> set (loadFile join mm g)"
      by (simp add: lf)
    have "upPath (if migrationKey v d = ?k then ?upd m0 else m0) = join f"
    proof (cases "migrationKey v d = ?k \<and> dir' = Up")
      case True
      with Some t m have "f = g" by (auto intro: same_key_same_up_file)
      with False show ?thesis by simp
    next
      case False
      with m0(2) show ?thesis by auto
    qed
    with in2 show ?thesis by blast
  qed
qed

lemma foldl_loadFile_up_files:
  "\<forall>f\<in>S. \<forall>v d. versionMatch f = Some (v, d, Up)
       \<longrightarrow> (\<exists>m. (migrationKey v d, m) \<in> set mm \<and> upPath m = join f) \<Longrightarrow>
   \<forall>f\<in>S \<union> set fs. \<forall>v d. versionMatch f = Some (v, d, Up)
       \<longrightarrow> (\<exists>m. (migrationKey v d, m) \<in> set (foldl (loadFile join) mm fs) \<and> upPath m = join f)"
proof (induction fs arbitrary: mm S)
  case Nil
  then show ?case by simp
next
  case (Cons g fs)
  have "\<forall>f\<in>insert g S. \<forall>v d. versionMatch f = Some (v, d, Up)
       \<longrightarrow> (\<exists>m. (migrationKey v d, m) \<in> set (loadFile join mm g) \<and> upPath m = join f)"
    using up_files_loadFile[OF Cons.prems] by blast
  from Cons.IH[OF this] show ?case by simp
qed

lemma migrationMap_up_file:
  assumes "f \<in> set files" and "versionMatch f = Some (v, d, Up)"
  shows "\<exists>m. (migrationKey v d, m) \<in> set (migrationMap join files) \<and> upPath m = join f"
  using foldl_loadFile_up_files[of "{}" "[]" join "sort files"] assms
  by (simp add: migrationMap_def)

lemma entry_version_of_key:
  assumes km: "(migrationKey v d, m) \<in> set (migrationMap join files)"
    and v: "\<forall>c\<in>set v. isDigit c"
  shows "MigrationFile.version m = v"
proof -
  from migrationMap_inv(2)[OF km] obtain f1 d1 dir1 where
    "versionMatch f1 = Some (MigrationFile.version m, d1, dir1)"
    "migrationKey v d = migrationKey (MigrationFile.version m) d1"
    by (auto simp: from_files_def)
  with migrationKey_inj[OF v versionMatch_digits[OF this(1)] this(2)] show ?thesis by simp
qed

lemma versions_of_up_entries:
  "map MigrationFile.version (filter (\<lambda>m. upPath m \<noteq> []) (map snd mm))
     = map (\<lambda>km. MigrationFile.version (snd km)) (filter (\<lambda>km. upPath (snd km) \<noteq> []) mm)"
  by (induction mm) auto

lemma distinct_versions_iff:
  "distinct (map MigrationFile.version (discover join files))
     \<longleftrightarrow> distinct (map (\<lambda>km. MigrationFile.version (snd km))
                    (filter (\<lambda>km. upPath (snd km) \<noteq> []) (migrationMap join files)))"
proof -
  have "mset (map MigrationFile.version (discover join files))
      = mset (map (\<lambda>km. MigrationFile.version (snd km))
                    (filter (\<lambda>km. upPath (snd km) \<noteq> []) (migrationMap join files)))"
    by (simp add: mset_discover flip: versions_of_up_entries)
  then show ?thesis by (rule mset_eq_imp_distinct_iff)
qed

lemma distinct_versions:
  assumes agree: "\<forall>f\<in>set files. \<forall>f'\<in>set files. \<forall>v d d'.
      versionMatch f = Some (v, d, Up) \<longrightarrow> versionMatch f' = Some (v, d', Up) \<longrightarrow> d = d'"
  shows "distinct (map MigrationFile.version (discover join files))"
proof -
  let ?mm = "migrationMap join files"
  let ?up = "filter (\<lambda>km. upPath (snd km) \<noteq> []) ?mm"
  have dk: "distinct (map fst ?mm)" by (rule migrationMap_inv(1))
  then have "distinct ?mm" by (simp add: distinct_map)
  then have dup: "distinct ?up" by simp
  have inj: "inj_on (\<lambda>km. MigrationFile.version (snd km)) (set ?up)"
  proof (rule inj_onI)
    fix a b assume "a \<in> set ?up" and "b \<in> set ?up"
      and eq: "MigrationFile.version (snd a) = MigrationFile.version (snd b)"
    then have a: "a \<in> set ?mm" "upPath (snd a) \<noteq> []" and b: "b \<in> set ?mm" "upPath (snd b) \<noteq> []"
      by simp_all
    from migrationMap_inv(2)[OF a(1)] a(2) obtain fa va da where
      fa: "fa \<in> set files" "versionMatch fa = Some (va, da, Up)" "fst a = migrationKey va da"
      by (auto simp: from_files_def)
    from migrationMap_inv(2)[OF b(1)] b(2) obtain fb vb db where
      fb: "fb \<in> set files" "versionMatch fb = Some (vb, db, Up)" "fst b = migrationKey vb db"
      by (auto simp: from_files_def)
    have "(migrationKey va da, snd a) \<in> set ?mm" "(migrationKey vb db, snd b) \<in> set ?mm"
      using a(1) b(1) fa(3) fb(3) by (metis prod.collapse)+
    from entry_version_of_key[OF this(1) versionMatch_digits[OF fa(2)]]
      entry_version_of_key[OF this(2) versionMatch_digits[OF fb(2)]] eq
    have "va = vb" by simp
    with agree fa(1,2) fb(1,2) have "da = db" by blast
    with \<open>va = vb\<close> fa(3) fb(3) have "fst a = fst b" by simp
    with dk a(1) b(1) show "a = b"
      by (metis eq_key_imp_eq_value prod.collapse)
  qed
  from dup inj have "distinct (map (\<lambda>km. MigrationFile.version (snd km)) ?up)"
    by (simp add: distinct_map)
  then show ?thesis by (simp add: distinct_versions_iff)
qed

lemma distinct_versions_only_if:
  assumes nonempty: "\<forall>f\<in>set files. join f \<noteq> []"
    and dist: "distinct (map MigrationFile.version (discover join files))"
    and f: "f \<in> set files" "versionMatch f = Some (v, d, Up)"
    and f': "f' \<in> set files" "versionMatch f' = Some (v, d', Up)"
  shows "d = d'"
proof -
  let ?mm = "migrationMap join files"
  let ?up = "filter (\<lambda>km. upPath (snd km) \<noteq> []) ?mm"
  from migrationMap_up_file[OF f, of join] obtain m where
    m: "(migrationKey v d, m) \<in> set ?mm" "upPath m = join f" by blast
  from migrationMap_up_file[OF f', of join] obtain m' where
    m': "(migrationKey v d', m') \<in> set ?mm" "upPath m' = join f'" by blast
  from m m' nonempty f(1) f'(1)
  have in_up: "(migrationKey v d, m) \<in> set ?up" "(migrationKey v d', m') \<in> set ?up"
    by simp_all
  have ver: "MigrationFile.version m = v" "MigrationFile.version m' = v"
    using entry_version_of_key[OF m(1) versionMatch_digits[OF f(2)]]
      entry_version_of_key[OF m'(1) versionMatch_digits[OF f'(2)]] by simp_all
  from dist have "distinct (map (\<lambda>km. MigrationFile.version (snd km)) ?up)"
    by (simp only: distinct_versions_iff)
  then have "inj_on (\<lambda>km. MigrationFile.version (snd km)) (set ?up)"
    by (simp only: distinct_map)
  from inj_onD[OF this _ in_up] ver have "migrationKey v d = migrationKey v d'"
    by simp
  then show ?thesis by (simp add: migrationKey_def)
qed

lemmas versionMatch_eval =
  versionMatch_def isDigit_def endsWith_def dropEnd_def matchDescription_def isLineTerminator_def
  migrationKey_def

subsection \<open>Claims about discovery\<close>

text \<open>
  Claim C2, as stated: in every catalog no two entries share the same version string, also
  when two files have the same version digits and different descriptions. The groups are
  keyed by version and description together, so the two up scripts \<open>V1__a.up.sql\<close> and
  \<open>V1__b.up.sql\<close> give two catalog entries of version \<open>1\<close>.
\<close>

theorem catalog_versions_not_unique:
  "map MigrationFile.version
     (discover ((@) ''sql/'') [''V1__a.up.sql'', ''V1__b.up.sql''])
   = [''1'', ''1'']"
  by code_simp

text \<open>
  Claim C2, amended: no two catalog entries share a version string, provided no two up
  scripts of the directory have the same version digits and different descriptions. The
  proviso gives up no more than it must: when \<open>path.join\<close> returns no empty path, which it
  never does, a catalog without repeated versions comes only from a directory that meets
  it. Down scripts do not count: a down script of another description adds no entry.
\<close>

theorem catalog_versions_unique:
  "((\<forall>f\<in>set files. \<forall>f'\<in>set files. \<forall>v d d'.
        versionMatch f = Some (v, d, Up) \<longrightarrow> versionMatch f' = Some (v, d', Up) \<longrightarrow> d = d')
      \<longrightarrow> distinct (map MigrationFile.version (discover join files)))
   \<and> ((\<forall>f\<in>set files. join f \<noteq> [])
        \<and> distinct (map MigrationFile.version (discover join files))
      \<longrightarrow> (\<forall>f\<in>set files. \<forall>f'\<in>set files. \<forall>v d d'.
        versionMatch f = Some (v, d, Up) \<longrightarrow> versionMatch f' = Some (v, d', Up) \<longrightarrow> d = d'))"
proof (rule conjI)
  show "(\<forall>f\<in>set files. \<forall>f'\<in>set files. \<forall>v d d'.
        versionMatch f = Some (v, d, Up) \<longrightarrow> versionMatch f' = Some (v, d', Up) \<longrightarrow> d = d')
      \<longrightarrow> distinct (map MigrationFile.version (discover join files))"
    using distinct_versions[of files join] by blast
  show "(\<forall>f\<in>set files. join f \<noteq> [])
        \<and> distinct (map MigrationFile.version (discover join files))
      \<longrightarrow> (\<forall>f\<in>set files. \<forall>f'\<in>set files. \<forall>v d d'.
        versionMatch f = Some (v, d, Up) \<longrightarrow> versionMatch f' = Some (v, d', Up) \<longrightarrow> d = d')"
    using distinct_versions_only_if[of files join] by blast
qed

text \<open>
  The amended claim at the directory \<open>V1__a.up.sql\<close>, \<open>V1__b.down.sql\<close>: one entry, of
  version \<open>1\<close>.
\<close>

theorem catalog_versions_unique_witness:
  "map MigrationFile.version (discover ((@) ''sql/'') [''V1__a.up.sql'', ''V1__b.down.sql''])
     = [''1'']
   \<and> distinct (map MigrationFile.version
         (discover ((@) ''sql/'') [''V1__a.up.sql'', ''V1__b.down.sql'']))
   \<and> ''sql/'' @ ''V1__a.up.sql'' \<noteq> [] \<and> ''sql/'' @ ''V1__b.down.sql'' \<noteq> []"
proof -
  let ?files = "[''V1__a.up.sql'', ''V1__b.down.sql'']"
  have m1: "versionMatch ''V1__a.up.sql'' = Some (''1'', ''a'', Up)"
    by (simp add: versionMatch_eval)
  have m2: "versionMatch ''V1__b.down.sql'' = Some (''1'', ''b'', Down)"
    by (simp add: versionMatch_eval)
  have h: "\<forall>f\<in>set ?files. \<forall>f'\<in>set ?files. \<forall>v d d'.
      versionMatch f = Some (v, d, Up) \<longrightarrow> versionMatch f' = Some (v, d', Up) \<longrightarrow> d = d'"
    by (simp add: m1 m2)
  have n: "\<forall>f\<in>set ?files. ''sql/'' @ f \<noteq> []"
    by simp
  have e: "map MigrationFile.version (discover ((@) ''sql/'') ?files) = [''1'']"
    by code_simp
  from catalog_versions_unique[where files = ?files and join = "(@) ''sql/''"] h
  have d: "distinct (map MigrationFile.version (discover ((@) ''sql/'') ?files))"
    by blast
  from catalog_versions_unique[where files = ?files and join = "(@) ''sql/''"] n d
  have "\<forall>f\<in>set ?files. \<forall>f'\<in>set ?files. \<forall>v d d'.
      versionMatch f = Some (v, d, Up) \<longrightarrow> versionMatch f' = Some (v, d', Up) \<longrightarrow> d = d'"
    by blast
  moreover have "''sql/'' @ ''V1__a.up.sql'' \<noteq> []" and "''sql/'' @ ''V1__b.down.sql'' \<noteq> []"
    by simp_all
  ultimately show ?thesis using e d by blast
qed

text \<open>
  Claim C3: for any directory listing the catalog is sorted ascending by the numeric value
  of the version digits, which is the order of the comparator given to \<open>sort\<close>, and two
  listings of the same files in different orders give the same catalog.
\<close>

theorem discover_sorted_numerically:
  "sorted (map (\<lambda>m. numericValue (MigrationFile.version m)) (discover join files))
   \<and> sorted_wrt (\<lambda>a b. localeCompareNumeric (MigrationFile.version a) (MigrationFile.version b) \<le> 0)
        (discover join files)
   \<and> (mset files' = mset files \<longrightarrow> discover join files' = discover join files)"
  using discover_sorted discover_sorted_wrt discover_mset_cong by blast

text \<open>
  Versions \<open>10\<close> and \<open>2\<close>: the catalog has \<open>2\<close> before \<open>10\<close>, against the order of the
  strings, whichever way the directory is listed.
\<close>

theorem discover_sorted_numerically_witness:
  "map MigrationFile.version
     (discover ((@) ''sql/'') [''V10__b.up.sql'', ''V2__a.up.sql'']) = [''2'', ''10'']
   \<and> sorted (map numericValue [''2'', ''10''])
   \<and> \<not> ''2'' \<le> ''10''
   \<and> discover ((@) ''sql/'') [''V2__a.up.sql'', ''V10__b.up.sql'']
       = discover ((@) ''sql/'') [''V10__b.up.sql'', ''V2__a.up.sql'']"
proof -
  have e: "map MigrationFile.version
     (discover ((@) ''sql/'') [''V10__b.up.sql'', ''V2__a.up.sql'']) = [''2'', ''10'']"
    by code_simp
  have p: "mset [''V2__a.up.sql'', ''V10__b.up.sql''] = mset [''V10__b.up.sql'', ''V2__a.up.sql'']"
    by simp
  have l: "\<not> ''2'' \<le> ''10''" by code_simp
  have "sorted (map numericValue (map MigrationFile.version
     (discover ((@) ''sql/'') [''V10__b.up.sql'', ''V2__a.up.sql''])))"
    using discover_sorted_numerically[of "(@) ''sql/''" "[''V10__b.up.sql'', ''V2__a.up.sql'']"
        "[''V2__a.up.sql'', ''V10__b.up.sql'']"]
    by (simp add: comp_def)
  then have s: "sorted (map numericValue [''2'', ''10''])" by (simp only: e)
  from discover_sorted_numerically[of "(@) ''sql/''" "[''V10__b.up.sql'', ''V2__a.up.sql'']"
        "[''V2__a.up.sql'', ''V10__b.up.sql'']"] p
  have "discover ((@) ''sql/'') [''V2__a.up.sql'', ''V10__b.up.sql'']
       = discover ((@) ''sql/'') [''V10__b.up.sql'', ''V2__a.up.sql'']"
    by blast
  with e s l show ?thesis by blast
qed

text \<open>
  Claim C5: a group for which no up script was found never appears in the catalog, and
  discovery raises no error for it. Every catalog entry has an \<open>upPath\<close>, which is the path
  of an up file of the listing with the entry's version and description; an entry of the
  grouping map whose key has no up file in the listing has an empty \<open>upPath\<close> and is not in
  the catalog; and \<open>loadMigrationFiles\<close> returns the catalog whenever the directory exists
  and can be listed.
\<close>

theorem groups_without_up_script_dropped:
  "(\<forall>m\<in>set (discover join files).
       upPath m \<noteq> [] \<and>
       (\<exists>f\<in>set files. \<exists>d. versionMatch f = Some (MigrationFile.version m, d, Up)
           \<and> MigrationFile.name m = replaceUnderscores d \<and> upPath m = join f))
   \<and> (\<forall>km\<in>set (migrationMap join files).
         (\<forall>f\<in>set files. \<forall>v d. versionMatch f = Some (v, d, Up) \<longrightarrow> migrationKey v d \<noteq> fst km)
           \<longrightarrow> upPath (snd km) = [] \<and> snd km \<notin> set (discover join files))
   \<and> (existsSync env p \<and> readdirSync env p = Inr files
         \<longrightarrow> fst (loadMigrationFiles env p w) = Inr (discover (path_join env p) files))"
  using catalog_entry_has_up_file group_without_up_file loadMigrationFiles_ok
  by (intro conjI ballI impI) blast+

text \<open>
  A directory with the down script of version \<open>1\<close> alone and the up script of version \<open>2\<close>.
\<close>

theorem groups_without_up_script_dropped_witness:
  "migrationMap ((@) ''sql/'') [''V1__a.down.sql'', ''V2__b.up.sql'']
     = [(''V1__a'', \<lparr>MigrationFile.version = ''1'', name = ''a'', upPath = [],
                      downPath = Some ''sql/V1__a.down.sql''\<rparr>),
        (''V2__b'', \<lparr>MigrationFile.version = ''2'', name = ''b'', upPath = ''sql/V2__b.up.sql'',
                      downPath = None\<rparr>)]
   \<and> \<lparr>MigrationFile.version = ''1'', name = ''a'', upPath = [],
       downPath = Some ''sql/V1__a.down.sql''\<rparr>
       \<notin> set (discover ((@) ''sql/'') [''V1__a.down.sql'', ''V2__b.up.sql''])
   \<and> fst (loadMigrationFiles (sample_env [(''V1__a.down.sql'', ''down''), (''V2__b.up.sql'', ''up'')])
              ''sql'' sample_world)
       = Inr (discover ((@) ''sql/'') [''V1__a.down.sql'', ''V2__b.up.sql''])"
proof -
  let ?join = "(@) ''sql/''"
  let ?files = "[''V1__a.down.sql'', ''V2__b.up.sql'']"
  let ?env = "sample_env [(''V1__a.down.sql'', ''down''), (''V2__b.up.sql'', ''up'')]"
  have mm: "migrationMap ?join ?files
     = [(''V1__a'', \<lparr>MigrationFile.version = ''1'', name = ''a'', upPath = [],
                      downPath = Some ''sql/V1__a.down.sql''\<rparr>),
        (''V2__b'', \<lparr>MigrationFile.version = ''2'', name = ''b'', upPath = ''sql/V2__b.up.sql'',
                      downPath = None\<rparr>)]"
    by code_simp
  have m1: "versionMatch ''V1__a.down.sql'' = Some (''1'', ''a'', Down)"
    by (simp add: versionMatch_eval)
  have m2: "versionMatch ''V2__b.up.sql'' = Some (''2'', ''b'', Up)"
    by (simp add: versionMatch_eval)
  have no_up: "\<forall>f\<in>set ?files. \<forall>v d. versionMatch f = Some (v, d, Up) \<longrightarrow> migrationKey v d \<noteq> ''V1__a''"
    by (simp add: m1 m2 migrationKey_def)
  have ex: "existsSync ?env ''sql''" "readdirSync ?env ''sql'' = Inr ?files"
    "path_join ?env ''sql'' = ?join"
    by (simp_all add: sample_env_def fun_eq_iff)
  from groups_without_up_script_dropped[of ?join ?files ?env "''sql''" sample_world] mm no_up ex
  show ?thesis by simp
qed

section \<open>The provider operations\<close>

subsection \<open>\<open>diff\<close> and \<open>create\<close> by cases\<close>

lemma diff_cases:
  "diff env ident olds news =
     (if upSqlChecksum olds \<noteq> sha256 env (upSql news) then Inl (upMismatch news)
      else if downSqlChecksum olds \<noteq> checksumOf env (downSql news) then Inl (downMismatch news)
      else Inr \<lparr>changes = False\<rparr>)"
  by (simp add: diff_def)

lemma withPgClient_InrD:
  assumes "withPgClient env callback w = (Inr r, w')"
  shows "\<exists>w1 w2. callback w1 = (Inr r, w2)"
  using assms
  by (auto simp: withPgClient_def split: sum.splits prod.splits option.splits)

lemma applyCallback_InrD:
  assumes "applyCallback env inputs w1 = (Inr r, w2)"
  shows "upSqlChecksum (outs r) = sha256 env (upSql inputs)"
    and "downSqlChecksum (outs r) = checksumOf env (downSql inputs)"
    and "SchemaVersionState.version (outs r) = SchemaVersionArgs.version inputs"
  using assms
  by (auto simp: applyCallback_def Let_def split: prod.splits option.splits)

lemma create_Inr_outs:
  assumes "create env inputs w = (Inr r, w')"
  shows "upSqlChecksum (outs r) = sha256 env (upSql inputs)
       \<and> downSqlChecksum (outs r) = checksumOf env (downSql inputs)"
proof -
  from assms obtain w0 where "withPgClient env (applyCallback env inputs) w = (Inr r, w0)"
    by (auto simp: create_def split: sum.splits prod.splits)
  from withPgClient_InrD[OF this] obtain w1 w2 where "applyCallback env inputs w1 = (Inr r, w2)"
    by blast
  from applyCallback_InrD(1,2)[OF this] show ?thesis by simp
qed

lemma create_InlD:
  assumes "create env inputs w = (Inl e, w')"
  shows "\<exists>cause. e = Error (''Failed to apply migration '' @ SchemaVersionArgs.version inputs
                       @ '': '' @ toString cause)"
  using assms by (auto simp: create_def split: sum.splits prod.splits)

lemma create_query_fails:
  assumes "new_Client env = Inr opts"
    and "client_connect env opts w = (None, w1)"
    and "client_query env (upSql inputs) w1 = (Some e, w2)"
  shows "fst (create env inputs w) =
           Inl (Error (''Failed to apply migration '' @ SchemaVersionArgs.version inputs @ '': ''
                  @ toString (case fst (client_end env w2) of Some e2 \<Rightarrow> e2 | None \<Rightarrow> e)))"
  using assms
  by (auto simp: create_def withPgClient_def applyCallback_def split: sum.splits prod.splits option.splits)

lemma create_InrD:
  assumes "create env inputs w = (Inr r, w')"
  shows "\<exists>opts w1 w2. new_Client env = Inr opts \<and> client_connect env opts w = (None, w1)
           \<and> client_query env (upSql inputs) w1 = (None, w2)"
  using assms
  by (auto simp: create_def withPgClient_def applyCallback_def Let_def
           split: sum.splits prod.splits option.splits)

lemmas sample_eval =
  sample_env_def sample_args_def sample_state_def sample_world_def
  withPgClient_def new_Client_def client_connect_def client_query_def client_end_def
  checksumOf_def console_log_def console_warn_def console_error_def Error_def
  upMismatch_def downMismatch_def

subsection \<open>Claims about \<open>diff\<close>, \<open>update\<close> and \<open>create\<close>\<close>

text \<open>
  Claim C1, as stated: \<open>diff\<close> returns "no changes" exactly when the fingerprints of the
  proposed up and down script texts equal the stored checksums. The down checksum is
  computed only for a truthy \<open>downSql\<close>: \<open>create\<close> with the empty string as down script
  stores no down checksum, and \<open>diff\<close> of that record against the same inputs returns "no
  changes", although the fingerprint of the proposed down text is not the stored (absent)
  checksum.
\<close>

theorem diff_no_changes_despite_down_fingerprint:
  "fst (create (sample_env []) (sample_args ''up'' (Some [])) sample_world)
     = Inr \<lparr>CreateResult.id = ''database-1-1700000000000'', outs = sample_state ''sha256:up'' None\<rparr>
   \<and> diff (sample_env []) ''database-1-1700000000000'' (sample_state ''sha256:up'' None)
        (sample_args ''up'' (Some []))
       = Inr \<lparr>changes = False\<rparr>
   \<and> downSqlChecksum (sample_state ''sha256:up'' None)
       \<noteq> map_option (sha256 (sample_env [])) (downSql (sample_args ''up'' (Some [])))"
proof -
  have n: "string_of_nat 1700000000000 = ''1700000000000''"
    by (simp add: string_of_nat.simps digit_char_def)
  have "fst (create (sample_env []) (sample_args ''up'' (Some [])) sample_world)
     = Inr \<lparr>CreateResult.id = ''database-1-1700000000000'', outs = sample_state ''sha256:up'' None\<rparr>"
    by (simp add: create_def applyCallback_def sample_eval n)
  moreover have "diff (sample_env []) ''database-1-1700000000000'' (sample_state ''sha256:up'' None)
        (sample_args ''up'' (Some [])) = Inr \<lparr>changes = False\<rparr>"
    by (simp add: diff_def sample_eval)
  moreover have "downSqlChecksum (sample_state ''sha256:up'' None)
       \<noteq> map_option (sha256 (sample_env [])) (downSql (sample_args ''up'' (Some [])))"
    by (simp add: sample_state_def sample_args_def)
  ultimately show ?thesis by blast
qed

text \<open>
  Claim C1, amended: \<open>diff\<close> recomputes the fingerprint of the proposed up script and the
  down checksum of the proposed inputs, which is the fingerprint of the down script when
  that is present and not empty, and absent otherwise (as \<open>create\<close> records it). It returns
  "no changes" exactly when both equal the stored checksums; when the up fingerprint
  differs it fails with the up mismatch error, when only the down checksum differs it fails
  with the down mismatch error, and it never reports a change. In particular \<open>diff\<close> of the
  record that \<open>create\<close> returned, against inputs with the same script texts, returns "no
  changes".
\<close>

theorem diff_no_changes_iff_checksums_match:
  "(diff env ident olds news = Inr \<lparr>changes = False\<rparr>
      \<longleftrightarrow> upSqlChecksum olds = sha256 env (upSql news)
          \<and> downSqlChecksum olds = checksumOf env (downSql news))
   \<and> (upSqlChecksum olds \<noteq> sha256 env (upSql news)
        \<longrightarrow> diff env ident olds news = Inl (upMismatch news))
   \<and> (upSqlChecksum olds = sha256 env (upSql news)
        \<and> downSqlChecksum olds \<noteq> checksumOf env (downSql news)
        \<longrightarrow> diff env ident olds news = Inl (downMismatch news))
   \<and> (\<forall>r. diff env ident olds news = Inr r \<longrightarrow> \<not> changes r)
   \<and> (\<forall>inputs w r w'.
         create env inputs w = (Inr r, w') \<and> upSql news = upSql inputs \<and> downSql news = downSql inputs
         \<longrightarrow> diff env ident (outs r) news = Inr \<lparr>changes = False\<rparr>)
   \<and> checksumOf env (downSql news) =
        (case downSql news of
           None \<Rightarrow> None
         | Some s \<Rightarrow> if s = [] then None else Some (sha256 env s))"
proof (intro conjI allI impI)
  show "diff env ident olds news = Inr \<lparr>changes = False\<rparr>
      \<longleftrightarrow> upSqlChecksum olds = sha256 env (upSql news)
          \<and> downSqlChecksum olds = checksumOf env (downSql news)"
    by (simp add: diff_cases)
next
  assume "upSqlChecksum olds \<noteq> sha256 env (upSql news)"
  then show "diff env ident olds news = Inl (upMismatch news)" by (simp add: diff_cases)
next
  assume "upSqlChecksum olds = sha256 env (upSql news)
        \<and> downSqlChecksum olds \<noteq> checksumOf env (downSql news)"
  then show "diff env ident olds news = Inl (downMismatch news)" by (simp add: diff_cases)
next
  fix r assume "diff env ident olds news = Inr r"
  then show "\<not> changes r" by (auto simp: diff_cases split: if_splits)
next
  fix inputs w r w'
  assume a: "create env inputs w = (Inr r, w') \<and> upSql news = upSql inputs \<and> downSql news = downSql inputs"
  with create_Inr_outs[of env inputs w r w']
  show "diff env ident (outs r) news = Inr \<lparr>changes = False\<rparr>"
    by (simp add: diff_cases)
next
  show "checksumOf env (downSql news) =
        (case downSql news of
           None \<Rightarrow> None
         | Some s \<Rightarrow> if s = [] then None else Some (sha256 env s))"
    by (cases "downSql news") (simp_all add: checksumOf_def)
qed

text \<open>
  A run of \<open>create\<close> followed by \<open>diff\<close> on the same inputs, and \<open>diff\<close> after the down
  script was edited.
\<close>

theorem diff_no_changes_iff_checksums_match_witness:
  "fst (create (sample_env []) (sample_args ''up'' (Some ''down'')) sample_world)
     = Inr \<lparr>CreateResult.id = ''database-1-1700000000000'',
            outs = sample_state ''sha256:up'' (Some ''sha256:down'')\<rparr>
   \<and> diff (sample_env []) ''database-1-1700000000000''
        (sample_state ''sha256:up'' (Some ''sha256:down'')) (sample_args ''up'' (Some ''down''))
       = Inr \<lparr>changes = False\<rparr>
   \<and> diff (sample_env []) ''database-1-1700000000000''
        (sample_state ''sha256:up'' (Some ''sha256:down'')) (sample_args ''up'' (Some ''drop''))
       = Inl (Error ''Migration 1 DOWN SQL checksum mismatch. SchemaVersion resources are immutable once applied.'')"
proof -
  let ?E = "sample_env []"
  let ?A = "sample_args ''up'' (Some ''down'')"
  let ?R = "\<lparr>CreateResult.id = ''database-1-1700000000000'',
            outs = sample_state ''sha256:up'' (Some ''sha256:down'')\<rparr>"
  have n: "string_of_nat 1700000000000 = ''1700000000000''"
    by (simp add: string_of_nat.simps digit_char_def)
  have c: "create ?E ?A sample_world =
            (Inr ?R, \<lparr>db = [''up''], queries = [''up''], console = [ConsoleLog ''Applied migration: 1 - a'']\<rparr>)"
    by (simp add: create_def applyCallback_def sample_eval n)
  have u: "upSqlChecksum (sample_state ''sha256:up'' (Some ''sha256:down''))
            = sha256 ?E (upSql (sample_args ''up'' (Some ''drop'')))"
    "downSqlChecksum (sample_state ''sha256:up'' (Some ''sha256:down''))
            \<noteq> checksumOf ?E (downSql (sample_args ''up'' (Some ''drop'')))"
    by (simp_all add: sample_eval)
  have "diff ?E ''database-1-1700000000000'' (outs ?R) ?A = Inr \<lparr>changes = False\<rparr>"
    using diff_no_changes_iff_checksums_match[where env = ?E and ident = "''database-1-1700000000000''"
        and olds = "outs ?R" and news = ?A] c
    by blast
  moreover have "diff ?E ''database-1-1700000000000''
        (sample_state ''sha256:up'' (Some ''sha256:down'')) (sample_args ''up'' (Some ''drop''))
       = Inl (downMismatch (sample_args ''up'' (Some ''drop'')))"
    using diff_no_changes_iff_checksums_match[where env = ?E and ident = "''database-1-1700000000000''"
        and olds = "sample_state ''sha256:up'' (Some ''sha256:down'')"
        and news = "sample_args ''up'' (Some ''drop'')"] u
    by blast
  ultimately show ?thesis using c by (simp add: downMismatch_def sample_args_def)
qed

text \<open>
  Claim C8: \<open>update\<close> fails for every identifier, stored record and proposed inputs; there
  is no input for which it returns a result.
\<close>

theorem update_always_fails:
  "update ident olds news =
     Inl (Error (''Migration '' @ SchemaVersionArgs.version news
                 @ '' cannot be updated. SchemaVersion resources are immutable.''))
   \<and> (\<forall>r. update ident olds news \<noteq> Inr r)"
  by (simp add: update_def)

text \<open>
  Claim C10, as stated: for every record without a stored down checksum, a proposed input
  that supplies a down script makes \<open>diff\<close> fail. The proposed down checksum is computed
  only for a truthy \<open>downSql\<close>, so a down script that is the empty string counts as absent
  and \<open>diff\<close> returns "no changes". An empty \<open>.down.sql\<close> file gives such an input: the
  resource built for it has the empty string as its \<open>downSql\<close>.
\<close>

theorem diff_empty_down_script_accepted:
  "createMigrationResources (sample_env [(''V1__a.up.sql'', ''up''), (''V1__a.down.sql'', [])])
      [\<lparr>MigrationFile.version = ''1'', name = ''a'', upPath = ''sql/V1__a.up.sql'',
         downPath = Some ''sql/V1__a.down.sql''\<rparr>]
     = Inr [SchemaVersion ''V1__a.up'' (sample_args ''up'' (Some [])) []]
   \<and> downSql (sample_args ''up'' (Some [])) = Some []
   \<and> downSqlChecksum (sample_state ''sha256:up'' None) = None
   \<and> diff (sample_env []) ''database-1-1700000000000'' (sample_state ''sha256:up'' None)
        (sample_args ''up'' (Some []))
       = Inr \<lparr>changes = False\<rparr>"
proof -
  have "createMigrationResources (sample_env [(''V1__a.up.sql'', ''up''), (''V1__a.down.sql'', [])])
      [\<lparr>MigrationFile.version = ''1'', name = ''a'', upPath = ''sql/V1__a.up.sql'',
         downPath = Some ''sql/V1__a.down.sql''\<rparr>]
     = Inr [SchemaVersion ''V1__a.up'' (sample_args ''up'' (Some [])) []]"
    by (simp add: createMigrationResources_def readSqlFile_def sample_env_def sample_args_def
                  dropEnd_def Let_def)
  moreover have "diff (sample_env []) ''database-1-1700000000000'' (sample_state ''sha256:up'' None)
        (sample_args ''up'' (Some []))
       = Inr \<lparr>changes = False\<rparr>"
    by (simp add: diff_def sample_eval)
  ultimately show ?thesis by (simp add: sample_args_def sample_state_def)
qed

text \<open>
  Claim C10, amended: for a record without a stored down checksum, a proposed input with a
  non-empty down script makes \<open>diff\<close> fail with a mismatch error (the up mismatch when the
  up script differs too, else the down mismatch); for a record with a stored down checksum,
  a proposed input without a down script, or with an empty one, makes \<open>diff\<close> fail in the
  same way; neither is reported as a change. An empty down script proposed for a record
  without a stored down checksum is no drift.
\<close>

theorem diff_down_presence_change_fails:
  "(downSqlChecksum olds = None \<and> truthy (downSql news)
      \<longrightarrow> diff env ident olds news =
            (if upSqlChecksum olds \<noteq> sha256 env (upSql news) then Inl (upMismatch news)
             else Inl (downMismatch news)))
   \<and> (downSqlChecksum olds \<noteq> None \<and> \<not> truthy (downSql news)
      \<longrightarrow> diff env ident olds news =
            (if upSqlChecksum olds \<noteq> sha256 env (upSql news) then Inl (upMismatch news)
             else Inl (downMismatch news)))
   \<and> (downSqlChecksum olds = None \<and> downSql news = Some []
      \<longrightarrow> diff env ident olds news =
            (if upSqlChecksum olds \<noteq> sha256 env (upSql news) then Inl (upMismatch news)
             else Inr \<lparr>changes = False\<rparr>))"
  by (auto simp: diff_cases checksumOf_def)

text \<open>A down script added to a record that had none, and a down script removed.\<close>

theorem diff_down_presence_change_fails_witness:
  "diff (sample_env []) ''database-1-1700000000000'' (sample_state ''sha256:up'' None)
        (sample_args ''up'' (Some ''down''))
     = Inl (Error ''Migration 1 DOWN SQL checksum mismatch. SchemaVersion resources are immutable once applied.'')
   \<and> diff (sample_env []) ''database-1-1700000000000'' (sample_state ''sha256:up'' (Some ''sha256:down''))
        (sample_args ''up'' None)
     = Inl (Error ''Migration 1 DOWN SQL checksum mismatch. SchemaVersion resources are immutable once applied.'')"
proof -
  have 1: "downSqlChecksum (sample_state ''sha256:up'' None) = None \<and> truthy (downSql (sample_args ''up'' (Some ''down'')))"
    by (simp add: sample_eval)
  have 2: "downSqlChecksum (sample_state ''sha256:up'' (Some ''sha256:down'')) \<noteq> None
        \<and> \<not> truthy (downSql (sample_args ''up'' None))"
    by (simp add: sample_eval)
  have u: "upSqlChecksum (sample_state ''sha256:up'' None) = sha256 (sample_env []) (upSql (sample_args ''up'' (Some ''down'')))"
    "upSqlChecksum (sample_state ''sha256:up'' (Some ''sha256:down'')) = sha256 (sample_env []) (upSql (sample_args ''up'' None))"
    by (simp_all add: sample_eval)
  have m: "downMismatch (sample_args ''up'' (Some ''down'')) = Error ''Migration 1 DOWN SQL checksum mismatch. SchemaVersion resources are immutable once applied.''"
    "downMismatch (sample_args ''up'' None) = Error ''Migration 1 DOWN SQL checksum mismatch. SchemaVersion resources are immutable once applied.''"
    by (simp_all add: downMismatch_def sample_args_def)
  from diff_down_presence_change_fails[where olds = "sample_state ''sha256:up'' None"
        and news = "sample_args ''up'' (Some ''down'')" and env = "sample_env []"
        and ident = "''database-1-1700000000000''"] 1 u(1)
  have a: "diff (sample_env []) ''database-1-1700000000000'' (sample_state ''sha256:up'' None)
        (sample_args ''up'' (Some ''down'')) = Inl (downMismatch (sample_args ''up'' (Some ''down'')))"
    by simp
  from diff_down_presence_change_fails[where olds = "sample_state ''sha256:up'' (Some ''sha256:down'')"
        and news = "sample_args ''up'' None" and env = "sample_env []"
        and ident = "''database-1-1700000000000''"] 2 u(2)
  have b: "diff (sample_env []) ''database-1-1700000000000'' (sample_state ''sha256:up'' (Some ''sha256:down''))
        (sample_args ''up'' None) = Inl (downMismatch (sample_args ''up'' None))"
    by simp
  from a b m show ?thesis by simp
qed

text \<open>
  Claim C6: whenever \<open>create\<close> fails, its error is an \<open>Error\<close> whose message names the
  version of the migration and the string of the cause, and a failure carries no record.
  When the execution of the up script fails, \<open>create\<close> fails in this way, the cause being
  the error of the query (or the error of \<open>client.end()\<close> when that fails as well). A
  record is returned only when the up script was executed without error.
\<close>

theorem create_failure_returns_wrapped_error:
  "(\<forall>e w'. create env inputs w = (Inl e, w')
       \<longrightarrow> (\<exists>cause. e = Error (''Failed to apply migration '' @ SchemaVersionArgs.version inputs
                                  @ '': '' @ toString cause)))
   \<and> (\<forall>opts w1 e w2.
         new_Client env = Inr opts \<and> client_connect env opts w = (None, w1)
           \<and> client_query env (upSql inputs) w1 = (Some e, w2)
         \<longrightarrow> fst (create env inputs w) =
               Inl (Error (''Failed to apply migration '' @ SchemaVersionArgs.version inputs @ '': ''
                     @ toString (case fst (client_end env w2) of Some e2 \<Rightarrow> e2 | None \<Rightarrow> e))))
   \<and> (\<forall>r w'. create env inputs w = (Inr r, w')
         \<longrightarrow> (\<exists>opts w1 w2. new_Client env = Inr opts \<and> client_connect env opts w = (None, w1)
                 \<and> client_query env (upSql inputs) w1 = (None, w2)))"
  using create_InlD[of env inputs w] create_query_fails[of env _ w _ inputs] create_InrD[of env inputs w]
  by (intro conjI allI impI) blast+

text \<open>The store rejects the up script \<open>bad\<close>.\<close>

theorem create_failure_returns_wrapped_error_witness:
  "create (sample_env []) (sample_args ''bad'' None) sample_world
     = (Inl (Error ''Failed to apply migration 1: error: syntax error''),
        \<lparr>db = [], queries = [''bad''],
         console = [ConsoleError ''Migration error details:'' (JsError ''error'' ''syntax error'')]\<rparr>)
   \<and> (\<exists>cause. Error ''Failed to apply migration 1: error: syntax error''
         = Error (''Failed to apply migration '' @ SchemaVersionArgs.version (sample_args ''bad'' None)
                  @ '': '' @ toString cause))"
proof -
  have c: "create (sample_env []) (sample_args ''bad'' None) sample_world
     = (Inl (Error ''Failed to apply migration 1: error: syntax error''),
        \<lparr>db = [], queries = [''bad''],
         console = [ConsoleError ''Migration error details:'' (JsError ''error'' ''syntax error'')]\<rparr>)"
    by (simp add: create_def applyCallback_def sample_eval)
  from create_failure_returns_wrapped_error[where env = "sample_env []"
      and inputs = "sample_args ''bad'' None" and w = sample_world] c
  show ?thesis by blast
qed

section \<open>The resource chain\<close>

lemma createLoop_Inr:
  assumes "createLoop env cat migrations prev = Inr rs"
  shows "\<exists>new. rs = migrations @ new \<and> chained prev new \<and> list_all2 (built_from env) new cat"
  using assms
proof (induction cat arbitrary: migrations prev)
  case Nil
  then show ?case by simp
next
  case (Cons mf rest)
  from Cons.prems obtain up down d where
    up: "readSqlFile env (upPath mf) = Inr up"
    and down: "(if truthy (downPath mf)
               then (case readSqlFile env (the (downPath mf)) of
                       Inl e \<Rightarrow> Inl e | Inr down \<Rightarrow> Inr (Some down))
               else Inr None) = Inr down"
    and d: "config_require env ''database'' = Inr d"
    by (auto split: sum.splits)
  define migration where "migration =
     SchemaVersion (path_basename env (upPath mf) ''.sql'')
        \<lparr>SchemaVersionArgs.version = MigrationFile.version mf,
         name = MigrationFile.name mf, upSql = up, downSql = down, database = d\<rparr>
        (case prev of Some p \<Rightarrow> [p] | None \<Rightarrow> [])"
  from Cons.prems up down d
  have "createLoop env rest (migrations @ [migration]) (Some migration) = Inr rs"
    by (simp add: migration_def Let_def)
  from Cons.IH[OF this] obtain new where
    new: "rs = (migrations @ [migration]) @ new" "chained (Some migration) new"
      "list_all2 (built_from env) new rest"
    by blast
  have b: "built_from env migration mf"
    using up down d
    by (auto simp: built_from_def migration_def split: if_splits sum.splits)
  have c: "dependsOn migration = (case prev of Some p \<Rightarrow> [p] | None \<Rightarrow> [])"
    by (simp add: migration_def)
  from new b c show ?case
    by (intro exI[of _ "migration # new"]) simp
qed

lemma chained_nth:
  "chained prev rs \<Longrightarrow> i < length rs \<Longrightarrow>
   dependsOn (rs ! i) = (if i = 0 then (case prev of Some p \<Rightarrow> [p] | None \<Rightarrow> []) else [rs ! (i - 1)])"
proof (induction rs arbitrary: prev i)
  case Nil
  then show ?case by simp
next
  case (Cons r rs)
  show ?case
  proof (cases i)
    case 0
    with Cons.prems show ?thesis by simp
  next
    case (Suc j)
    with Cons.prems have "chained (Some r) rs" "j < length rs" by simp_all
    from Cons.IH[OF this] Suc show ?thesis
      by (cases j) simp_all
  qed
qed

lemma size_dependsOn: "dependsOn r = [p] \<Longrightarrow> size p < size r"
  by (cases r) simp

lemma chained_larger:
  "chained (Some r) rs \<Longrightarrow> x \<in> set rs \<Longrightarrow> size r < size x"
proof (induction rs arbitrary: r)
  case Nil
  then show ?case by simp
next
  case (Cons y ys)
  from Cons.prems(1) have y: "size r < size y" and ch: "chained (Some y) ys"
    by (simp_all add: size_dependsOn)
  from Cons.prems(2) have "x = y \<or> x \<in> set ys" by simp
  then show ?case
  proof
    assume "x = y" with y show ?thesis by simp
  next
    assume "x \<in> set ys"
    from Cons.IH[OF ch this] y show ?thesis by simp
  qed
qed

lemma chained_distinct: "chained prev rs \<Longrightarrow> distinct rs"
proof (induction rs arbitrary: prev)
  case Nil
  then show ?case by simp
next
  case (Cons y ys)
  from Cons.prems have ch: "chained (Some y) ys" by simp
  have "y \<notin> set ys"
  proof
    assume "y \<in> set ys"
    from chained_larger[OF ch this] show False by simp
  qed
  with Cons.IH[OF ch] show ?case by simp
qed

lemma createLoop_succeeds:
  assumes "\<forall>mf\<in>set cat. \<exists>up. readSqlFile env (upPath mf) = Inr up"
    and "\<forall>mf\<in>set cat. truthy (downPath mf) \<longrightarrow> (\<exists>down. readSqlFile env (the (downPath mf)) = Inr down)"
    and "config_require env ''database'' = Inr d"
  shows "\<exists>rs. createLoop env cat migrations prev = Inr rs"
  using assms
proof (induction cat arbitrary: migrations prev)
  case Nil
  then show ?case by simp
next
  case (Cons mf rest)
  from Cons.prems(1) obtain up where up: "readSqlFile env (upPath mf) = Inr up" by auto
  have "\<exists>down. (if truthy (downPath mf)
               then (case readSqlFile env (the (downPath mf)) of
                       Inl e \<Rightarrow> Inl e | Inr down \<Rightarrow> Inr (Some down))
               else Inr None) = Inr down"
    using Cons.prems(2) by (cases "truthy (downPath mf)") auto
  then obtain down where down: "(if truthy (downPath mf)
               then (case readSqlFile env (the (downPath mf)) of
                       Inl e \<Rightarrow> Inl e | Inr down \<Rightarrow> Inr (Some down))
               else Inr None) = Inr down" ..
  have rest: "\<forall>mf\<in>set rest. \<exists>up. readSqlFile env (upPath mf) = Inr up"
    "\<forall>mf\<in>set rest. truthy (downPath mf) \<longrightarrow> (\<exists>down. readSqlFile env (the (downPath mf)) = Inr down)"
    using Cons.prems by simp_all
  from Cons.IH[OF rest Cons.prems(3)] up down Cons.prems(3) show ?case
    by (simp add: Let_def)
qed

lemma createMigrationResources_InrD:
  assumes "createMigrationResources env cat = Inr rs"
  shows "length rs = length cat"
    and "distinct rs"
    and "i < length rs \<Longrightarrow>
           dependsOn (rs ! i) = (if i = 0 then [] else [rs ! (i - 1)])
             \<and> res_name (rs ! i) = path_basename env (upPath (cat ! i)) ''.sql''
             \<and> SchemaVersionArgs.version (res_args (rs ! i)) = MigrationFile.version (cat ! i)
             \<and> SchemaVersionArgs.name (res_args (rs ! i)) = MigrationFile.name (cat ! i)
             \<and> readSqlFile env (upPath (cat ! i)) = Inr (upSql (res_args (rs ! i)))"
proof -
  from assms have "createLoop env cat [] None = Inr rs" by (simp add: createMigrationResources_def)
  from createLoop_Inr[OF this] have ch: "chained None rs" and b: "list_all2 (built_from env) rs cat"
    by simp_all
  from b show "length rs = length cat" by (rule list_all2_lengthD)
  from ch show "distinct rs" by (rule chained_distinct)
  assume i: "i < length rs"
  from chained_nth[OF ch i] have 1: "dependsOn (rs ! i) = (if i = 0 then [] else [rs ! (i - 1)])"
    by simp
  from b i have "built_from env (rs ! i) (cat ! i)" by (simp add: list_all2_nthD)
  with 1 show "dependsOn (rs ! i) = (if i = 0 then [] else [rs ! (i - 1)])
             \<and> res_name (rs ! i) = path_basename env (upPath (cat ! i)) ''.sql''
             \<and> SchemaVersionArgs.version (res_args (rs ! i)) = MigrationFile.version (cat ! i)
             \<and> SchemaVersionArgs.name (res_args (rs ! i)) = MigrationFile.name (cat ! i)
             \<and> readSqlFile env (upPath (cat ! i)) = Inr (upSql (res_args (rs ! i)))"
    by (simp add: built_from_def)
qed

lemma createMigrationResources_succeeds:
  assumes "\<forall>mf\<in>set cat. \<exists>up. readSqlFile env (upPath mf) = Inr up"
    and "\<forall>mf\<in>set cat. truthy (downPath mf) \<longrightarrow> (\<exists>down. readSqlFile env (the (downPath mf)) = Inr down)"
    and "\<exists>d. config_require env ''database'' = Inr d"
  shows "\<exists>rs. createMigrationResources env cat = Inr rs"
proof -
  from assms(3) obtain d where "config_require env ''database'' = Inr d" ..
  from createLoop_succeeds[OF assms(1,2) this] show ?thesis
    by (simp add: createMigrationResources_def)
qed

lemmas catalog_eval =
  createMigrationResources_def readSqlFile_def sample_env_def Error_def

text \<open>
  Claim C4: the resources built from a catalog form a linear chain in catalog order. When
  \<open>createMigrationResources\<close> returns, it returns one resource for each catalog entry, in
  catalog order, each with the name, version and up script of its entry; the first
  declares no dependency and every other one declares exactly one, the resource of the
  entry just before it. It does return whenever every script of the catalog can be read and
  the database name is configured.
\<close>

theorem resources_form_linear_chain:
  "(\<forall>rs. createMigrationResources env cat = Inr rs \<longrightarrow>
       length rs = length cat
       \<and> distinct rs
       \<and> (\<forall>i<length rs.
             dependsOn (rs ! i) = (if i = 0 then [] else [rs ! (i - 1)])
             \<and> res_name (rs ! i) = path_basename env (upPath (cat ! i)) ''.sql''
             \<and> SchemaVersionArgs.version (res_args (rs ! i)) = MigrationFile.version (cat ! i)
             \<and> SchemaVersionArgs.name (res_args (rs ! i)) = MigrationFile.name (cat ! i)
             \<and> readSqlFile env (upPath (cat ! i)) = Inr (upSql (res_args (rs ! i)))))
   \<and> ((\<forall>mf\<in>set cat. \<exists>up. readSqlFile env (upPath mf) = Inr up)
        \<and> (\<forall>mf\<in>set cat. truthy (downPath mf) \<longrightarrow> (\<exists>down. readSqlFile env (the (downPath mf)) = Inr down))
        \<and> (\<exists>d. config_require env ''database'' = Inr d)
        \<longrightarrow> (\<exists>rs. createMigrationResources env cat = Inr rs))"
proof -
  have "createMigrationResources env cat = Inr rs \<longrightarrow>
       length rs = length cat
       \<and> distinct rs
       \<and> (\<forall>i<length rs.
             dependsOn (rs ! i) = (if i = 0 then [] else [rs ! (i - 1)])
             \<and> res_name (rs ! i) = path_basename env (upPath (cat ! i)) ''.sql''
             \<and> SchemaVersionArgs.version (res_args (rs ! i)) = MigrationFile.version (cat ! i)
             \<and> SchemaVersionArgs.name (res_args (rs ! i)) = MigrationFile.name (cat ! i)
             \<and> readSqlFile env (upPath (cat ! i)) = Inr (upSql (res_args (rs ! i))))" for rs
    using createMigrationResources_InrD[of env cat rs] by blast
  moreover have "(\<forall>mf\<in>set cat. \<exists>up. readSqlFile env (upPath mf) = Inr up)
        \<and> (\<forall>mf\<in>set cat. truthy (downPath mf) \<longrightarrow> (\<exists>down. readSqlFile env (the (downPath mf)) = Inr down))
        \<and> (\<exists>d. config_require env ''database'' = Inr d)
        \<longrightarrow> (\<exists>rs. createMigrationResources env cat = Inr rs)"
    using createMigrationResources_succeeds[of cat env] by blast
  ultimately show ?thesis by blast
qed

text \<open>
  A catalog of two entries: the second resource depends on the first, the first on nothing.
\<close>

theorem resources_form_linear_chain_witness:
  "createMigrationResources
      (sample_env [(''V1__a.up.sql'', ''up1''), (''V1__a.down.sql'', ''down1''), (''V2__b.up.sql'', ''up2'')])
      [\<lparr>MigrationFile.version = ''1'', name = ''a'', upPath = ''sql/V1__a.up.sql'',
         downPath = Some ''sql/V1__a.down.sql''\<rparr>,
       \<lparr>MigrationFile.version = ''2'', name = ''b'', upPath = ''sql/V2__b.up.sql'',
         downPath = None\<rparr>]
    = Inr [SchemaVersion ''V1__a.up''
             \<lparr>SchemaVersionArgs.version = ''1'', name = ''a'', upSql = ''up1'',
              downSql = Some ''down1'', database = ''database''\<rparr> [],
           SchemaVersion ''V2__b.up''
             \<lparr>SchemaVersionArgs.version = ''2'', name = ''b'', upSql = ''up2'',
              downSql = None, database = ''database''\<rparr>
             [SchemaVersion ''V1__a.up''
               \<lparr>SchemaVersionArgs.version = ''1'', name = ''a'', upSql = ''up1'',
                downSql = Some ''down1'', database = ''database''\<rparr> []]]
   \<and> dependsOn (SchemaVersion ''V2__b.up''
             \<lparr>SchemaVersionArgs.version = ''2'', name = ''b'', upSql = ''up2'',
              downSql = None, database = ''database''\<rparr>
             [SchemaVersion ''V1__a.up''
               \<lparr>SchemaVersionArgs.version = ''1'', name = ''a'', upSql = ''up1'',
                downSql = Some ''down1'', database = ''database''\<rparr> []])
      = [SchemaVersion ''V1__a.up''
               \<lparr>SchemaVersionArgs.version = ''1'', name = ''a'', upSql = ''up1'',
                downSql = Some ''down1'', database = ''database''\<rparr> []]"
proof -
  let ?env = "sample_env [(''V1__a.up.sql'', ''up1''), (''V1__a.down.sql'', ''down1''), (''V2__b.up.sql'', ''up2'')]"
  let ?cat = "[\<lparr>MigrationFile.version = ''1'', name = ''a'', upPath = ''sql/V1__a.up.sql'',
         downPath = Some ''sql/V1__a.down.sql''\<rparr>,
       \<lparr>MigrationFile.version = ''2'', name = ''b'', upPath = ''sql/V2__b.up.sql'',
         downPath = None\<rparr>]"
  let ?r1 = "SchemaVersion ''V1__a.up''
             \<lparr>SchemaVersionArgs.version = ''1'', name = ''a'', upSql = ''up1'',
              downSql = Some ''down1'', database = ''database''\<rparr> []"
  let ?r2 = "SchemaVersion ''V2__b.up''
             \<lparr>SchemaVersionArgs.version = ''2'', name = ''b'', upSql = ''up2'',
              downSql = None, database = ''database''\<rparr> [?r1]"
  have c: "createMigrationResources ?env ?cat = Inr [?r1, ?r2]"
    by (simp add: catalog_eval dropEnd_def Let_def)
  from resources_form_linear_chain[where env = ?env and cat = ?cat] c
  have "\<forall>i<length [?r1, ?r2]. dependsOn ([?r1, ?r2] ! i) = (if i = 0 then [] else [[?r1, ?r2] ! (i - 1)])"
    by blast
  then have d: "dependsOn ([?r1, ?r2] ! 1) = (if (1::nat) = 0 then [] else [[?r1, ?r2] ! (1 - 1)])"
    by (rule allE) simp
  have h: "(\<forall>mf\<in>set ?cat. \<exists>up. readSqlFile ?env (upPath mf) = Inr up)
        \<and> (\<forall>mf\<in>set ?cat. truthy (downPath mf)
               \<longrightarrow> (\<exists>down. readSqlFile ?env (the (downPath mf)) = Inr down))
        \<and> (\<exists>d. config_require ?env ''database'' = Inr d)"
    by (simp add: readSqlFile_def sample_env_def)
  from resources_form_linear_chain[where env = ?env and cat = ?cat] h
  have "\<exists>rs. createMigrationResources ?env ?cat = Inr rs"
    by blast
  with c d show ?thesis by simp
qed

section \<open>\<open>delete\<close>\<close>

lemma loadMigrationFiles_world:
  assumes "loadMigrationFiles env p w = (r, w0)"
  shows "db w0 = db w" and "queries w0 = queries w"
  using assms
  by (auto simp: loadMigrationFiles_def Let_def console_warn_def console_log_def
           split: if_splits sum.splits)

lemma delete_load_fails:
  assumes "loadMigrationFiles env (path_join env (dirname env) ''sql'') w = (Inl e, w0)"
  shows "delete env ident stored w = (Inl e, w0)"
  using assms by (simp add: delete_def)

lemma delete_unresolved:
  assumes load: "loadMigrationFiles env (path_join env (dirname env) ''sql'') w = (Inr cat, w0)"
    and un: "\<not> truthy (resolveDownPath cat stored) \<or> \<not> existsSync env (the (resolveDownPath cat stored))"
  shows "delete env ident stored w =
           (Inr (), console_warn (''No down migration found for '' @ SchemaVersionState.version stored
                                   @ '', skipping rollback'') w0)"
    and "queries (snd (delete env ident stored w)) = queries w"
    and "db (snd (delete env ident stored w)) = db w"
proof -
  from load un show d: "delete env ident stored w =
           (Inr (), console_warn (''No down migration found for '' @ SchemaVersionState.version stored
                                   @ '', skipping rollback'') w0)"
    by (auto simp: delete_def Let_def)
  from loadMigrationFiles_world[OF load] d
  show "queries (snd (delete env ident stored w)) = queries w"
    and "db (snd (delete env ident stored w)) = db w"
    by (simp_all add: console_warn_def)
qed

lemma withPgClient_connected:
  assumes "new_Client env = Inr opts" and "client_connect env opts w0 = (None, w1)"
    and "callback w1 = (r, w2)"
  shows "fst (withPgClient env callback w0) = (case fst (client_end env w2) of Some e2 \<Rightarrow> Inl e2 | None \<Rightarrow> r)"
    and "queries (snd (withPgClient env callback w0)) = queries w2"
  using assms
  by (auto simp: withPgClient_def client_end_def split: prod.splits option.splits)

lemma client_connect_queries:
  "client_connect env opts w0 = (r, w1) \<Longrightarrow> queries w1 = queries w0"
  by (auto simp: client_connect_def split: prod.splits)

lemma rollbackCallback_read:
  assumes "readFileSync env path = Inr sql" and "client_query env sql w1 = (qr, w2)"
  shows "fst (rollbackCallback env stored path w1) = (case qr of Some e \<Rightarrow> Inl e | None \<Rightarrow> Inr ())"
    and "queries (snd (rollbackCallback env stored path w1)) = queries w1 @ [sql]"
  using assms
  by (auto simp: rollbackCallback_def client_query_def console_log_def split: prod.splits option.splits)

lemma delete_resolved:
  assumes load: "loadMigrationFiles env (path_join env (dirname env) ''sql'') w = (Inr cat, w0)"
    and res: "truthy (resolveDownPath cat stored)" "existsSync env (the (resolveDownPath cat stored))"
    and client: "new_Client env = Inr opts" "client_connect env opts w0 = (None, w1)"
    and rf: "readFileSync env (the (resolveDownPath cat stored)) = Inr sql"
    and qu: "client_query env sql w1 = (qr, w2)"
  shows "queries (snd (delete env ident stored w)) = queries w @ [sql]"
    and "fst (delete env ident stored w) =
           (case fst (client_end env w2) of
              Some e2 \<Rightarrow> Inl e2
            | None \<Rightarrow> (case qr of Some e \<Rightarrow> Inl e | None \<Rightarrow> Inr ()))"
proof -
  let ?cb = "rollbackCallback env stored (the (resolveDownPath cat stored))"
  obtain r w2' where cb: "?cb w1 = (r, w2')" by (cases "?cb w1")
  from rollbackCallback_read[OF rf qu, of stored] cb
  have r: "r = (case qr of Some e \<Rightarrow> Inl e | None \<Rightarrow> Inr ())"
    and q2: "queries w2' = queries w1 @ [sql]"
    by simp_all
  have db2: "db w2' = db w2"
    using cb rf qu
    by (auto simp: rollbackCallback_def client_query_def console_log_def split: prod.splits option.splits)
  then have e: "fst (client_end env w2') = fst (client_end env w2)"
    by (simp add: client_end_def split: prod.splits)
  from withPgClient_connected[where callback = ?cb, OF client cb]
  have f: "fst (withPgClient env ?cb w0) = (case fst (client_end env w2') of Some e2 \<Rightarrow> Inl e2 | None \<Rightarrow> r)"
    and q: "queries (snd (withPgClient env ?cb w0)) = queries w2'"
    by simp_all
  have d: "delete env ident stored w =
     (case withPgClient env ?cb w0 of
                (Inr u, w') \<Rightarrow> (Inr u, w')
              | (Inl error, w') \<Rightarrow>
                  (Inl error,
                   console_error (''Failed to rollback migration '' @ SchemaVersionState.version stored @ '':'')
                     error w'))"
    using load res by (simp add: delete_def Let_def)
  have q0: "queries w1 = queries w"
    using client_connect_queries[OF client(2)] loadMigrationFiles_world(2)[OF load] by simp
  show "queries (snd (delete env ident stored w)) = queries w @ [sql]"
    using q q2 q0 unfolding d
    by (auto simp: console_error_def split: prod.splits sum.splits)
  show "fst (delete env ident stored w) =
           (case fst (client_end env w2) of
              Some e2 \<Rightarrow> Inl e2
            | None \<Rightarrow> (case qr of Some e \<Rightarrow> Inl e | None \<Rightarrow> Inr ()))"
    using f r e unfolding d
    by (auto split: prod.splits sum.splits option.splits)
qed




lemma sample_env_sql:
  "path_join (sample_env dir) (dirname (sample_env dir)) ''sql'' = ''sql''"
  "path_join (sample_env dir) ''sql'' = (@) ''sql/''"
  "existsSync (sample_env dir) ''sql''"
  "readdirSync (sample_env dir) ''sql'' = Inr (map fst dir)"
  by (simp_all add: sample_env_def fun_eq_iff)

lemma loadMigrationFiles_sample:
  assumes "discover ((@) ''sql/'') (map fst dir) = cat"
  shows "loadMigrationFiles (sample_env dir) ''sql'' w =
     (Inr cat,
      if length cat = 0 then console_warn (''No migration files found in sql'') w
      else console_log (''Found '' @ string_of_nat (length cat) @ '' migrations to process'') w)"
  using assms by (simp add: loadMigrationFiles_def sample_env_sql Let_def)

lemma sample_client:
  "new_Client (sample_env dir) =
     Inr \<lparr>host = ''host'', port = ''5432'', client_options.database = ''database'',
          user = ''username'', password = ''password''\<rparr>"
  "client_connect (sample_env dir) opts w = (None, w)"
  "client_end (sample_env dir) w = (None, w)"
  "client_query (sample_env dir) sql w =
     (if sql = ''bad'' then (Some (JsError ''error'' ''syntax error''), w\<lparr>queries := queries w @ [sql]\<rparr>)
      else (None, w\<lparr>db := db w @ [sql], queries := queries w @ [sql]\<rparr>))"
  by (simp_all add: new_Client_def client_connect_def client_end_def client_query_def sample_env_def)

subsection \<open>Claims about \<open>delete\<close>\<close>

text \<open>
  Claim C7: \<open>delete\<close> of a record whose version has no resolvable down script completes
  without error, executes nothing and logs a warning, and when a down script is resolvable
  \<open>delete\<close> executes it. Discovery and \<open>createMigrationResources\<close> give every migration the
  scripts of its own version and description, but \<open>delete\<close> looks the script up by the version
  alone and takes the first catalog entry of that version. Here the code is run on the
  directory \<open>V1__a.up.sql\<close>, \<open>V1__b.up.sql\<close>, \<open>V1__b.down.sql\<close> and the record of migration
  \<open>b\<close>, whose down script exists: \<open>delete\<close> finds the entry of \<open>a\<close>, warns that there is no down
  migration and sends nothing to the store.
\<close>

theorem delete_skips_down_script_of_later_entry:
  "discover ((@) ''sql/'') [''V1__a.up.sql'', ''V1__b.up.sql'', ''V1__b.down.sql'']
     = [\<lparr>MigrationFile.version = ''1'', name = ''a'', upPath = ''sql/V1__a.up.sql'', downPath = None\<rparr>,
        \<lparr>MigrationFile.version = ''1'', name = ''b'', upPath = ''sql/V1__b.up.sql'',
         downPath = Some ''sql/V1__b.down.sql''\<rparr>]
   \<and> existsSync (sample_env [(''V1__a.up.sql'', ''up a''), (''V1__b.up.sql'', ''up b''),
                              (''V1__b.down.sql'', ''down b'')]) ''sql/V1__b.down.sql''
   \<and> delete (sample_env [(''V1__a.up.sql'', ''up a''), (''V1__b.up.sql'', ''up b''),
                         (''V1__b.down.sql'', ''down b'')])
        ''database-1-1700000000000''
        \<lparr>SchemaVersionState.version = ''1'', name = ''b'', upSqlChecksum = ''sha256:up b'',
         downSqlChecksum = Some ''sha256:down b'', appliedAt = ''2023-11-14T22:13:20.000Z''\<rparr>
        sample_world
     = (Inr (),
        \<lparr>db = [], queries = [],
         console = [ConsoleLog ''Found 2 migrations to process'',
                    ConsoleWarn ''No down migration found for 1, skipping rollback'']\<rparr>)"
proof -
  let ?E = "sample_env [(''V1__a.up.sql'', ''up a''), (''V1__b.up.sql'', ''up b''),
                              (''V1__b.down.sql'', ''down b'')]"
  have disc: "discover ((@) ''sql/'') [''V1__a.up.sql'', ''V1__b.up.sql'', ''V1__b.down.sql'']
     = [\<lparr>MigrationFile.version = ''1'', name = ''a'', upPath = ''sql/V1__a.up.sql'', downPath = None\<rparr>,
        \<lparr>MigrationFile.version = ''1'', name = ''b'', upPath = ''sql/V1__b.up.sql'',
         downPath = Some ''sql/V1__b.down.sql''\<rparr>]"
    by code_simp
  have ex: "existsSync ?E ''sql/V1__b.down.sql''"
    by (simp add: sample_env_def)
  have n: "string_of_nat (Suc (Suc 0)) = ''2''"
    by (simp add: string_of_nat.simps digit_char_def)
  let ?cat = "[\<lparr>MigrationFile.version = ''1'', name = ''a'', upPath = ''sql/V1__a.up.sql'', downPath = None\<rparr>,
        \<lparr>MigrationFile.version = ''1'', name = ''b'', upPath = ''sql/V1__b.up.sql'',
         downPath = Some ''sql/V1__b.down.sql''\<rparr>]"
  let ?stored = "\<lparr>SchemaVersionState.version = ''1'', name = ''b'', upSqlChecksum = ''sha256:up b'',
         downSqlChecksum = Some ''sha256:down b'', appliedAt = ''2023-11-14T22:13:20.000Z''\<rparr>"
  have load: "loadMigrationFiles ?E (path_join ?E (dirname ?E) ''sql'') sample_world =
      (Inr ?cat, console_log ''Found 2 migrations to process'' sample_world)"
    using disc by (simp add: sample_env_sql(1) loadMigrationFiles_sample n)
  have un: "\<not> truthy (resolveDownPath ?cat ?stored)
            \<or> \<not> existsSync ?E (the (resolveDownPath ?cat ?stored))"
    by (simp add: resolveDownPath_def)
  have "delete ?E ''database-1-1700000000000'' ?stored sample_world
     = (Inr (),
        \<lparr>db = [], queries = [],
         console = [ConsoleLog ''Found 2 migrations to process'',
                    ConsoleWarn ''No down migration found for 1, skipping rollback'']\<rparr>)"
    using delete_unresolved(1)[OF load un, of "''database-1-1700000000000''"]
    by (simp add: console_log_def console_warn_def sample_world_def)
  with disc ex show ?thesis by simp
qed

text \<open>
  What that run leaves behind: \<open>delete\<close> reports success and the store has received no
  statement.
\<close>

theorem delete_skips_down_script_of_later_entry_witness:
  "fst (delete (sample_env [(''V1__a.up.sql'', ''up a''), (''V1__b.up.sql'', ''up b''),
                              (''V1__b.down.sql'', ''down b'')])
        ''database-1-1700000000000''
        \<lparr>SchemaVersionState.version = ''1'', name = ''b'', upSqlChecksum = ''sha256:up b'',
         downSqlChecksum = Some ''sha256:down b'', appliedAt = ''2023-11-14T22:13:20.000Z''\<rparr>
        sample_world) = Inr ()
   \<and> queries (snd (delete (sample_env [(''V1__a.up.sql'', ''up a''), (''V1__b.up.sql'', ''up b''),
                              (''V1__b.down.sql'', ''down b'')])
        ''database-1-1700000000000''
        \<lparr>SchemaVersionState.version = ''1'', name = ''b'', upSqlChecksum = ''sha256:up b'',
         downSqlChecksum = Some ''sha256:down b'', appliedAt = ''2023-11-14T22:13:20.000Z''\<rparr>
        sample_world)) = []"
proof -
  from delete_skips_down_script_of_later_entry
  have d: "delete (sample_env [(''V1__a.up.sql'', ''up a''), (''V1__b.up.sql'', ''up b''),
                         (''V1__b.down.sql'', ''down b'')])
        ''database-1-1700000000000''
        \<lparr>SchemaVersionState.version = ''1'', name = ''b'', upSqlChecksum = ''sha256:up b'',
         downSqlChecksum = Some ''sha256:down b'', appliedAt = ''2023-11-14T22:13:20.000Z''\<rparr>
        sample_world
     = (Inr (),
        \<lparr>db = [], queries = [],
         console = [ConsoleLog ''Found 2 migrations to process'',
                    ConsoleWarn ''No down migration found for 1, skipping rollback'']\<rparr>)"
    by blast
  show ?thesis by (simp add: d)
qed

text \<open>
  The same lookup when migration \<open>a\<close> has a down script of its own: \<open>delete\<close> of the record of
  \<open>b\<close> executes the down script of \<open>a\<close>.
\<close>

theorem delete_runs_down_script_of_other_migration:
  "discover ((@) ''sql/'') [''V1__a.up.sql'', ''V1__a.down.sql'', ''V1__b.up.sql'', ''V1__b.down.sql'']
     = [\<lparr>MigrationFile.version = ''1'', name = ''a'', upPath = ''sql/V1__a.up.sql'',
         downPath = Some ''sql/V1__a.down.sql''\<rparr>,
        \<lparr>MigrationFile.version = ''1'', name = ''b'', upPath = ''sql/V1__b.up.sql'',
         downPath = Some ''sql/V1__b.down.sql''\<rparr>]
   \<and> queries (snd (delete (sample_env [(''V1__a.up.sql'', ''up a''), (''V1__a.down.sql'', ''down a''),
                                         (''V1__b.up.sql'', ''up b''), (''V1__b.down.sql'', ''down b'')])
        ''database-1-1700000000000''
        \<lparr>SchemaVersionState.version = ''1'', name = ''b'', upSqlChecksum = ''sha256:up b'',
         downSqlChecksum = Some ''sha256:down b'', appliedAt = ''2023-11-14T22:13:20.000Z''\<rparr>
        sample_world)) = [''down a'']
   \<and> fst (delete (sample_env [(''V1__a.up.sql'', ''up a''), (''V1__a.down.sql'', ''down a''),
                                (''V1__b.up.sql'', ''up b''), (''V1__b.down.sql'', ''down b'')])
        ''database-1-1700000000000''
        \<lparr>SchemaVersionState.version = ''1'', name = ''b'', upSqlChecksum = ''sha256:up b'',
         downSqlChecksum = Some ''sha256:down b'', appliedAt = ''2023-11-14T22:13:20.000Z''\<rparr>
        sample_world) = Inr ()"
proof -
  let ?E = "sample_env [(''V1__a.up.sql'', ''up a''), (''V1__a.down.sql'', ''down a''),
                        (''V1__b.up.sql'', ''up b''), (''V1__b.down.sql'', ''down b'')]"
  let ?cat = "[\<lparr>MigrationFile.version = ''1'', name = ''a'', upPath = ''sql/V1__a.up.sql'',
         downPath = Some ''sql/V1__a.down.sql''\<rparr>,
        \<lparr>MigrationFile.version = ''1'', name = ''b'', upPath = ''sql/V1__b.up.sql'',
         downPath = Some ''sql/V1__b.down.sql''\<rparr>]"
  let ?stored = "\<lparr>SchemaVersionState.version = ''1'', name = ''b'', upSqlChecksum = ''sha256:up b'',
         downSqlChecksum = Some ''sha256:down b'', appliedAt = ''2023-11-14T22:13:20.000Z''\<rparr>"
  let ?w0 = "console_log ''Found 2 migrations to process'' sample_world"
  let ?w2 = "?w0\<lparr>db := db ?w0 @ [''down a''], queries := queries ?w0 @ [''down a'']\<rparr>"
  have disc: "discover ((@) ''sql/'')
      [''V1__a.up.sql'', ''V1__a.down.sql'', ''V1__b.up.sql'', ''V1__b.down.sql''] = ?cat"
    by code_simp
  have n: "string_of_nat (Suc (Suc 0)) = ''2''"
    by (simp add: string_of_nat.simps digit_char_def)
  have load: "loadMigrationFiles ?E (path_join ?E (dirname ?E) ''sql'') sample_world = (Inr ?cat, ?w0)"
    using disc by (simp add: sample_env_sql(1) loadMigrationFiles_sample n)
  have p: "resolveDownPath ?cat ?stored = Some ''sql/V1__a.down.sql''"
    by (simp add: resolveDownPath_def)
  have res: "truthy (resolveDownPath ?cat ?stored)" "existsSync ?E (the (resolveDownPath ?cat ?stored))"
    by (simp_all add: p) (simp add: sample_env_def)
  have rf: "readFileSync ?E (the (resolveDownPath ?cat ?stored)) = Inr ''down a''"
    by (simp add: p) (simp add: sample_env_def)
  have q: "client_query ?E ''down a'' ?w0 = (None, ?w2)"
    by (simp add: sample_client)
  from delete_resolved[OF load res sample_client(1) sample_client(2) rf q,
      of "''database-1-1700000000000''"]
  have "queries (snd (delete ?E ''database-1-1700000000000'' ?stored sample_world)) = [''down a'']"
    and "fst (delete ?E ''database-1-1700000000000'' ?stored sample_world) = Inr ()"
    by (simp_all add: sample_client(3) sample_world_def)
  with disc show ?thesis by blast
qed



end
